theory Spec2Isabelle
  imports Main "HOL-Library.AList"
begin

section \<open>The multi-asset sensor cursor of dagster's sensor\_definition.py\<close>

text \<open>
  The development embeds the cursor engine of
  \<^verbatim>\<open>dagster/_core/definitions/sensor_definition.py\<close>: the cursor codec
  (\<^verbatim>\<open>MultiAssetSensorContextCursor\<close>), the tick context
  (\<^verbatim>\<open>MultiAssetSensorEvaluationContext\<close>), the accumulator of advance requests
  (\<^verbatim>\<open>MultiAssetSensorCursorAdvances\<close>) and the evaluation wrapper of
  \<^verbatim>\<open>MultiAssetSensorDefinition\<close>.

  Conventions. A Python \<^verbatim>\<open>dict\<close> is an association list in insertion order:
  \<^verbatim>\<open>d[k] = v\<close> is \<open>AList.update k v d\<close> (an existing key keeps its place, a new key
  goes to the end), \<^verbatim>\<open>d.pop(k)\<close> is \<open>AList.delete k d\<close>, \<^verbatim>\<open>k in d\<close> is
  \<open>k \<in> fst ` set d\<close>, \<^verbatim>\<open>d.get(k)\<close> is \<open>map_of d k\<close> and \<^verbatim>\<open>len(d)\<close> is
  \<open>length d\<close>; the keys of a dict are distinct. A Python \<^verbatim>\<open>set\<close> is a (finite) HOL
  set. Every \<^verbatim>\<open>raise\<close> is a value \<open>Inl e\<close> of the result type. A method that mutates
  its object returns the new object. Text is a \<open>string\<close>, a list of 8-bit characters.
\<close>

subsection \<open>Errors\<close>

datatype error =
    JSONDecodeError
  | AttributeError
  | TypeError
  | ValueError
  | KeyError
  | CheckError
  | DagsterInvariantViolationError
  | DagsterInvalidInvocationError
  | DagsterInvalidDefinitionError

subsection \<open>JSON values and Python's json module\<close>

text \<open>
  The values \<^verbatim>\<open>json.loads\<close> returns: \<^verbatim>\<open>None\<close>, \<^verbatim>\<open>bool\<close>, \<^verbatim>\<open>int\<close>,
  \<^verbatim>\<open>float\<close> (kept as its literal), \<^verbatim>\<open>str\<close>, \<^verbatim>\<open>list\<close> and \<^verbatim>\<open>dict\<close>.
\<close>

datatype json =
    JNull
  | JBool bool
  | JInt int
  | JFloat string
  | JStr string
  | JArr "json list"
  | JObj "(string \<times> json) list"

text \<open>
  \<^verbatim>\<open>json.dumps\<close> with its default arguments: separators \<^verbatim>\<open>", "\<close> and
  \<^verbatim>\<open>": "\<close>, and \<^verbatim>\<open>ensure_ascii\<close>, which escapes the quote, the backslash and
  every character outside the printable ASCII range.
\<close>

definition hex_digit :: "nat \<Rightarrow> char" where
  "hex_digit n = (if n < 10 then char_of (48 + n) else char_of (87 + n))"

definition escape_char :: "char \<Rightarrow> string" where
  "escape_char c =
     (if c = CHR 0x22 then [CHR 0x5C, CHR 0x22]
      else if c = CHR 0x5C then [CHR 0x5C, CHR 0x5C]
      else if c = CHR 0x0A then [CHR 0x5C, CHR ''n'']
      else if c = CHR 0x0D then [CHR 0x5C, CHR ''r'']
      else if c = CHR 0x09 then [CHR 0x5C, CHR ''t'']
      else if c = CHR 0x0C then [CHR 0x5C, CHR ''f'']
      else if c = CHR 0x08 then [CHR 0x5C, CHR ''b'']
      else if 32 \<le> (of_char c :: nat) \<and> (of_char c :: nat) \<le> 126 then [c]
      else [CHR 0x5C, CHR ''u'', CHR ''0'', CHR ''0'',
            hex_digit ((of_char c :: nat) div 16), hex_digit ((of_char c :: nat) mod 16)])"

definition dumps_str :: "string \<Rightarrow> string" where
  "dumps_str s = CHR 0x22 # concat (map escape_char s) @ [CHR 0x22]"

fun digits_of_nat :: "nat \<Rightarrow> string" where
  "digits_of_nat n =
     (if n < 10 then [char_of (48 + n)]
      else digits_of_nat (n div 10) @ [char_of (48 + n mod 10)])"

declare digits_of_nat.simps [simp del]

definition dumps_int :: "int \<Rightarrow> string" where
  "dumps_int i = (if i < 0 then CHR ''-'' # digits_of_nat (nat (- i)) else digits_of_nat (nat i))"

fun join :: "string \<Rightarrow> string list \<Rightarrow> string" where
  "join sep [] = []"
| "join sep [x] = x"
| "join sep (x # y # ys) = x @ sep @ join sep (y # ys)"

fun json_dumps :: "json \<Rightarrow> string" where
  "json_dumps JNull = ''null''"
| "json_dumps (JBool b) = (if b then ''true'' else ''false'')"
| "json_dumps (JInt i) = dumps_int i"
| "json_dumps (JFloat lit) = lit"
| "json_dumps (JStr s) = dumps_str s"
| "json_dumps (JArr xs) = ''['' @ join '', '' (map json_dumps xs) @ '']''"
| "json_dumps (JObj kvs) =
     ''{'' @ join '', '' (map (\<lambda>kv. dumps_str (fst kv) @ '': '' @ json_dumps (snd kv)) kvs) @ ''}''"

text \<open>
  \<^verbatim>\<open>json.loads\<close>: the scanner of \<^verbatim>\<open>json.decoder\<close> and \<^verbatim>\<open>json.scanner\<close>. White
  space is blank, tab, line feed and carriage return. A string ends at the first unescaped
  quote; a raw control character is refused (strict mode); an escape \<^verbatim>\<open>\uXXXX\<close>
  denotes the character with that code, here below 256. A number follows
  \<^verbatim>\<open>(-?(?:0|[1-9]\d*))(\.\d+)?([eE][-+]?\d+)?\<close> and is an \<^verbatim>\<open>int\<close> when it has
  neither fraction nor exponent. The pairs of an object become a \<^verbatim>\<open>dict\<close>, so a
  repeated key keeps its first place and its last value. The recursion is on a fuel that
  \<open>json_loads\<close> sets above twice the length of its input.
\<close>

definition is_ws :: "char \<Rightarrow> bool" where
  "is_ws c \<longleftrightarrow> c = CHR '' '' \<or> c = CHR 0x09 \<or> c = CHR 0x0A \<or> c = CHR 0x0D"

definition skip_ws :: "string \<Rightarrow> string" where
  "skip_ws s = dropWhile is_ws s"

definition is_digit :: "char \<Rightarrow> bool" where
  "is_digit c \<longleftrightarrow> 48 \<le> (of_char c :: nat) \<and> (of_char c :: nat) \<le> 57"

definition hex_val :: "char \<Rightarrow> nat option" where
  "hex_val c =
     (let n = (of_char c :: nat) in
      if 48 \<le> n \<and> n \<le> 57 then Some (n - 48)
      else if 97 \<le> n \<and> n \<le> 102 then Some (n - 87)
      else if 65 \<le> n \<and> n \<le> 70 then Some (n - 55)
      else None)"

definition unescape :: "char \<Rightarrow> char option" where
  "unescape e =
     (if e = CHR 0x22 then Some (CHR 0x22)
      else if e = CHR 0x5C then Some (CHR 0x5C)
      else if e = CHR ''/'' then Some (CHR ''/'')
      else if e = CHR ''b'' then Some (CHR 0x08)
      else if e = CHR ''f'' then Some (CHR 0x0C)
      else if e = CHR ''n'' then Some (CHR 0x0A)
      else if e = CHR ''r'' then Some (CHR 0x0D)
      else if e = CHR ''t'' then Some (CHR 0x09)
      else None)"

definition hex4 :: "char \<Rightarrow> char \<Rightarrow> char \<Rightarrow> char \<Rightarrow> nat option" where
  "hex4 a b c d =
     (case (hex_val a, hex_val b, hex_val c, hex_val d) of
        (Some x, Some y, Some z, Some w) \<Rightarrow> Some (((x * 16 + y) * 16 + z) * 16 + w)
      | _ \<Rightarrow> None)"

definition cons_result :: "'a \<Rightarrow> ('a list \<times> 'b) option \<Rightarrow> ('a list \<times> 'b) option" where
  "cons_result x r = (case r of None \<Rightarrow> None | Some (xs, rest) \<Rightarrow> Some (x # xs, rest))"

fun scanstring :: "string \<Rightarrow> (string \<times> string) option" where
  "scanstring [] = None"
| "scanstring (c # cs) =
     (if c = CHR 0x22 then Some ([], cs)
      else if c = CHR 0x5C then
        (case cs of
           [] \<Rightarrow> None
         | e # cs' \<Rightarrow>
             if e = CHR ''u'' then
               (case cs' of
                  h1 # h2 # h3 # h4 # cs'' \<Rightarrow>
                    (case hex4 h1 h2 h3 h4 of
                       None \<Rightarrow> None
                     | Some n \<Rightarrow>
                         if n < 256 then cons_result (char_of n) (scanstring cs'') else None)
                | _ \<Rightarrow> None)
             else
               (case unescape e of
                  None \<Rightarrow> None
                | Some ch \<Rightarrow> cons_result ch (scanstring cs')))
      else if (of_char c :: nat) < 32 then None
      else cons_result c (scanstring cs))"

definition nat_of_digits :: "string \<Rightarrow> nat" where
  "nat_of_digits ds = foldl (\<lambda>acc d. acc * 10 + ((of_char d :: nat) - 48)) 0 ds"

definition match_number :: "string \<Rightarrow> (json \<times> string) option" where
  "match_number s =
     (let neg = (case s of c # _ \<Rightarrow> c = CHR ''-'' | [] \<Rightarrow> False);
          s1 = (if neg then tl s else s)
      in case s1 of
           [] \<Rightarrow> None
         | c # r \<Rightarrow>
             if \<not> is_digit c then None
             else
               let ip = (if c = CHR ''0'' then [c] else c # takeWhile is_digit r);
                   s2 = (if c = CHR ''0'' then r else dropWhile is_digit r);
                   has_frac = (case s2 of p # d # _ \<Rightarrow> p = CHR ''.'' \<and> is_digit d | _ \<Rightarrow> False);
                   frac = (if has_frac then CHR ''.'' # takeWhile is_digit (tl s2) else []);
                   s3 = (if has_frac then dropWhile is_digit (tl s2) else s2);
                   exp_len =
                     (case s3 of
                        e # d # r' \<Rightarrow>
                          if e = CHR ''e'' \<or> e = CHR ''E'' then
                            (if is_digit d then 1
                             else if (d = CHR ''+'' \<or> d = CHR ''-'')
                                     \<and> (case r' of d' # _ \<Rightarrow> is_digit d' | [] \<Rightarrow> False)
                             then 2 else 0)
                          else 0
                      | _ \<Rightarrow> (0::nat));
                   ex = (if exp_len = 0 then []
                         else take exp_len s3 @ takeWhile is_digit (drop exp_len s3));
                   s4 = (if exp_len = 0 then s3 else dropWhile is_digit (drop exp_len s3))
               in if frac = [] \<and> ex = [] then
                    Some (JInt ((if neg then - 1 else 1) * int (nat_of_digits ip)), s4)
                  else
                    Some (JFloat ((if neg then ''-'' else []) @ ip @ frac @ ex), s4))"

definition starts_with :: "string \<Rightarrow> string \<Rightarrow> bool" where
  "starts_with p s \<longleftrightarrow> take (length p) s = p"

definition py_dict :: "('k \<times> 'v) list \<Rightarrow> ('k \<times> 'v) list" where
  "py_dict pairs = foldl (\<lambda>d kv. AList.update (fst kv) (snd kv) d) [] pairs"

fun scan_once :: "nat \<Rightarrow> string \<Rightarrow> (json \<times> string) option"
  and JSONArray :: "nat \<Rightarrow> string \<Rightarrow> (json list \<times> string) option"
  and JSONObject :: "nat \<Rightarrow> string \<Rightarrow> ((string \<times> json) list \<times> string) option"
where
  "scan_once 0 s = None"
| "scan_once (Suc n) s =
     (case s of
        [] \<Rightarrow> None
      | c # r \<Rightarrow>
          if c = CHR 0x22 then
            (case scanstring r of None \<Rightarrow> None | Some (t, r') \<Rightarrow> Some (JStr t, r'))
          else if c = CHR ''{'' then
            (case skip_ws r of
               [] \<Rightarrow> None
             | c' # r' \<Rightarrow>
                 if c' = CHR ''}'' then Some (JObj [], r')
                 else if c' = CHR 0x22 then
                   (case JSONObject n r' of
                      None \<Rightarrow> None
                    | Some (pairs, r'') \<Rightarrow> Some (JObj (py_dict pairs), r''))
                 else None)
          else if c = CHR ''['' then
            (case skip_ws r of
               [] \<Rightarrow> None
             | c' # r' \<Rightarrow>
                 if c' = CHR '']'' then Some (JArr [], r')
                 else
                   (case JSONArray n (c' # r') of
                      None \<Rightarrow> None
                    | Some (vs, r'') \<Rightarrow> Some (JArr vs, r'')))
          else if starts_with ''null'' s then Some (JNull, drop 4 s)
          else if starts_with ''true'' s then Some (JBool True, drop 4 s)
          else if starts_with ''false'' s then Some (JBool False, drop 5 s)
          else
            (case match_number s of
               Some res \<Rightarrow> Some res
             | None \<Rightarrow>
                 if starts_with ''NaN'' s then Some (JFloat ''NaN'', drop 3 s)
                 else if starts_with ''Infinity'' s then Some (JFloat ''Infinity'', drop 8 s)
                 else if starts_with ''-Infinity'' s then Some (JFloat ''-Infinity'', drop 9 s)
                 else None))"
| "JSONArray 0 s = None"
| "JSONArray (Suc n) s =
     (case scan_once n s of
        None \<Rightarrow> None
      | Some (v, r) \<Rightarrow>
          (case skip_ws r of
             [] \<Rightarrow> None
           | c # r' \<Rightarrow>
               if c = CHR '']'' then Some ([v], r')
               else if c = CHR '','' then cons_result v (JSONArray n (skip_ws r'))
               else None))"
| "JSONObject 0 s = None"
| "JSONObject (Suc n) s =
     (case scanstring s of
        None \<Rightarrow> None
      | Some (key, r) \<Rightarrow>
          (case skip_ws r of
             [] \<Rightarrow> None
           | c # r' \<Rightarrow>
               if c \<noteq> CHR '':'' then None
               else
                 (case scan_once n (skip_ws r') of
                    None \<Rightarrow> None
                  | Some (v, r'') \<Rightarrow>
                      (case skip_ws r'' of
                         [] \<Rightarrow> None
                       | c' # r3 \<Rightarrow>
                           if c' = CHR ''}'' then Some ([(key, v)], r3)
                           else if c' = CHR '','' then
                             (case skip_ws r3 of
                                [] \<Rightarrow> None
                              | q # r4 \<Rightarrow>
                                  if q = CHR 0x22 then cons_result (key, v) (JSONObject n r4)
                                  else None)
                           else None))))"

definition json_loads :: "string \<Rightarrow> error + json" where
  "json_loads s =
     (case scan_once (2 * length s + 2) (skip_ws s) of
        None \<Rightarrow> Inl JSONDecodeError
      | Some (v, r) \<Rightarrow> if skip_ws r = [] then Inr v else Inl JSONDecodeError)"

subsection \<open>Asset keys, event records and the event store\<close>

text \<open>
  Modelled from the spec: \<^verbatim>\<open>AssetKey\<close> is declared outside the given sources (an
  "opaque hierarchical identifier" with structural equality, kept in the cursor under its
  string form). An asset key is represented by the string \<^verbatim>\<open>str(asset_key)\<close>.
\<close>

datatype AssetKey = AssetKey (str: string)

text \<open>
  An \<^verbatim>\<open>EventLogRecord\<close> has a \<^verbatim>\<open>storage_id\<close> and an entry whose
  \<^verbatim>\<open>dagster_event\<close>, when present, carries the asset key and the partition.
\<close>

record DagsterEvent =
  event_asset_key :: "AssetKey option"
  event_partition :: "string option"

record EventLogRecord =
  storage_id :: int
  dagster_event :: "DagsterEvent option"

definition get_partition_key_from_event_log_record :: "EventLogRecord \<Rightarrow> string option" where
  "get_partition_key_from_event_log_record event_log_record =
     (case dagster_event event_log_record of
        Some ev \<Rightarrow> event_partition ev
      | None \<Rightarrow> None)"

text \<open>
  Modelled from the spec: the event store (\<^verbatim>\<open>DagsterInstance.get_event_records\<close> with
  an \<^verbatim>\<open>EventRecordsFilter\<close>) is outside the given sources. The spec describes it as an
  append-only store of event records with increasing ids, queried by
  \<^verbatim>\<open>query(eventType, assetKey?, afterId?, beforeId?, partitionFilter?, storageIds?,
  ascending, limit?)\<close>, which returns an ordered sequence of records. The store is the
  list of its materialization records; both id bounds are exclusive.
\<close>

record EventRecordsFilter =
  filter_asset_key :: "AssetKey option"
  after_cursor :: "int option"
  before_cursor :: "int option"
  storage_ids :: "int list option"
  asset_partitions :: "string list option"

definition any_event :: EventRecordsFilter where
  "any_event = \<lparr> filter_asset_key = None, after_cursor = None, before_cursor = None,
                 storage_ids = None, asset_partitions = None \<rparr>"

type_synonym event_store = "EventLogRecord list"

definition matches :: "EventRecordsFilter \<Rightarrow> EventLogRecord \<Rightarrow> bool" where
  "matches f r \<longleftrightarrow>
     (case filter_asset_key f of
        None \<Rightarrow> True
      | Some k \<Rightarrow> (case dagster_event r of None \<Rightarrow> False | Some ev \<Rightarrow> event_asset_key ev = Some k))
     \<and> (case after_cursor f of None \<Rightarrow> True | Some a \<Rightarrow> a < storage_id r)
     \<and> (case before_cursor f of None \<Rightarrow> True | Some b \<Rightarrow> storage_id r < b)
     \<and> (case storage_ids f of None \<Rightarrow> True | Some ids \<Rightarrow> storage_id r \<in> set ids)
     \<and> (case asset_partitions f of
          None \<Rightarrow> True
        | Some ps \<Rightarrow>
            (case get_partition_key_from_event_log_record r of
               None \<Rightarrow> False
             | Some p \<Rightarrow> p \<in> set ps))"

definition get_event_records ::
  "event_store \<Rightarrow> EventRecordsFilter \<Rightarrow> bool \<Rightarrow> nat option \<Rightarrow> EventLogRecord list" where
  "get_event_records store f ascending limit =
     (let found = sort_key storage_id (filter (matches f) store);
          ordered = (if ascending then found else rev found)
      in case limit of None \<Rightarrow> ordered | Some n \<Rightarrow> take n ordered)"

subsection \<open>The cursor component and the cursor codec\<close>

definition MAX_NUM_UNCONSUMED_EVENTS :: nat where
  "MAX_NUM_UNCONSUMED_EVENTS = 25"

record MultiAssetSensorAssetCursorComponent =
  latest_consumed_event_partition :: "string option"
  latest_consumed_event_id :: "int option"
  trailing_unconsumed_partitioned_event_ids :: "(string \<times> int) list"

text \<open>
  The checks of the component's constructor on the values read from JSON:
  \<^verbatim>\<open>check.opt_str_param\<close>, \<^verbatim>\<open>check.opt_int_param\<close> and \<^verbatim>\<open>check.dict_param\<close> with
  \<^verbatim>\<open>key_type=str, value_type=int\<close>. They test with \<^verbatim>\<open>isinstance\<close>, for which a
  \<^verbatim>\<open>bool\<close> is an \<^verbatim>\<open>int\<close> (\<^verbatim>\<open>True == 1\<close>, \<^verbatim>\<open>False == 0\<close>).
\<close>

definition opt_str_param :: "json \<Rightarrow> error + string option" where
  "opt_str_param obj =
     (case obj of JNull \<Rightarrow> Inr None | JStr s \<Rightarrow> Inr (Some s) | _ \<Rightarrow> Inl CheckError)"

definition int_of_json :: "json \<Rightarrow> int option" where
  "int_of_json obj =
     (case obj of JInt i \<Rightarrow> Some i | JBool b \<Rightarrow> Some (if b then 1 else 0) | _ \<Rightarrow> None)"

definition opt_int_param :: "json \<Rightarrow> error + int option" where
  "opt_int_param obj =
     (case obj of
        JNull \<Rightarrow> Inr None
      | _ \<Rightarrow> (case int_of_json obj of Some i \<Rightarrow> Inr (Some i) | None \<Rightarrow> Inl CheckError))"

fun dict_entries :: "(string \<times> json) list \<Rightarrow> error + (string \<times> int) list" where
  "dict_entries [] = Inr []"
| "dict_entries ((k, v) # kvs) =
     (case int_of_json v of
        None \<Rightarrow> Inl CheckError
      | Some i \<Rightarrow> (case dict_entries kvs of Inl e \<Rightarrow> Inl e | Inr d \<Rightarrow> Inr ((k, i) # d)))"

definition dict_param :: "json \<Rightarrow> error + (string \<times> int) list" where
  "dict_param obj = (case obj of JObj kvs \<Rightarrow> dict_entries kvs | _ \<Rightarrow> Inl CheckError)"

definition new_component ::
  "json \<Rightarrow> json \<Rightarrow> json \<Rightarrow> error + MultiAssetSensorAssetCursorComponent" where
  "new_component partition_key event_id trailing =
     (case opt_str_param partition_key of
        Inl e \<Rightarrow> Inl e
      | Inr p \<Rightarrow>
          (case opt_int_param event_id of
             Inl e \<Rightarrow> Inl e
           | Inr i \<Rightarrow>
               (case dict_param trailing of
                  Inl e \<Rightarrow> Inl e
                | Inr d \<Rightarrow>
                    Inr \<lparr> latest_consumed_event_partition = p,
                          latest_consumed_event_id = i,
                          trailing_unconsumed_partitioned_event_ids = d \<rparr>)))"

text \<open>\<^verbatim>\<open>len(x)\<close> of a JSON value, and the unpacking \<^verbatim>\<open>a, b, c = x\<close> of one of length 3
  (a string unpacks into its characters, a dict into its keys).\<close>

definition py_len :: "json \<Rightarrow> error + nat" where
  "py_len x =
     (case x of
        JStr s \<Rightarrow> Inr (length s)
      | JArr xs \<Rightarrow> Inr (length xs)
      | JObj kvs \<Rightarrow> Inr (length kvs)
      | _ \<Rightarrow> Inl TypeError)"

definition py_iter :: "json \<Rightarrow> json list" where
  "py_iter x =
     (case x of
        JStr s \<Rightarrow> map (\<lambda>c. JStr [c]) s
      | JArr xs \<Rightarrow> xs
      | JObj kvs \<Rightarrow> map (\<lambda>kv. JStr (fst kv)) kvs
      | _ \<Rightarrow> [])"

record MultiAssetSensorContextCursor =
  cursor_component_by_asset_key :: "(string \<times> MultiAssetSensorAssetCursorComponent) list"
  initial_latest_consumed_event_ids_by_asset_key :: "(string \<times> int option) list"

definition empty_cursor :: MultiAssetSensorContextCursor where
  "empty_cursor = \<lparr> cursor_component_by_asset_key = [],
                    initial_latest_consumed_event_ids_by_asset_key = [] \<rparr>"

text \<open>The loop of \<^verbatim>\<open>MultiAssetSensorContextCursor.__init__\<close> over
  \<^verbatim>\<open>loaded_cursor.items()\<close>; an entry whose length is not 3 ends it (\<^verbatim>\<open>break\<close>).\<close>

fun unpack_cursor ::
  "(string \<times> json) list \<Rightarrow> MultiAssetSensorContextCursor \<Rightarrow> error + MultiAssetSensorContextCursor"
where
  "unpack_cursor [] self = Inr self"
| "unpack_cursor ((str_asset_key, cursor_list) # items) self =
     (case py_len cursor_list of
        Inl e \<Rightarrow> Inl e
      | Inr n \<Rightarrow>
          if n \<noteq> 3 then Inr self
          else
            (case py_iter cursor_list of
               [partition_key, event_id, trailing] \<Rightarrow>
                 (case new_component partition_key event_id trailing of
                    Inl e \<Rightarrow> Inl e
                  | Inr component \<Rightarrow>
                      unpack_cursor items
                        \<lparr> cursor_component_by_asset_key =
                            AList.update str_asset_key component
                              (cursor_component_by_asset_key self),
                          initial_latest_consumed_event_ids_by_asset_key =
                            AList.update str_asset_key (latest_consumed_event_id component)
                              (initial_latest_consumed_event_ids_by_asset_key self) \<rparr>)
             | _ \<Rightarrow> Inl ValueError))"

definition MultiAssetSensorContextCursor_init ::
  "string option \<Rightarrow> error + MultiAssetSensorContextCursor" where
  "MultiAssetSensorContextCursor_init cursor =
     (case (if cursor \<noteq> None \<and> cursor \<noteq> Some [] then json_loads (the cursor)
            else Inr (JObj [])) of
        Inl e \<Rightarrow> Inl e
      | Inr loaded_cursor \<Rightarrow>
          (case loaded_cursor of
             JObj items \<Rightarrow> unpack_cursor items empty_cursor
           | _ \<Rightarrow> Inl AttributeError))"

definition get_cursor_for_asset ::
  "MultiAssetSensorContextCursor \<Rightarrow> AssetKey \<Rightarrow> MultiAssetSensorAssetCursorComponent" where
  "get_cursor_for_asset self asset_key =
     (case map_of (cursor_component_by_asset_key self) (str asset_key) of
        Some component \<Rightarrow> component
      | None \<Rightarrow> \<lparr> latest_consumed_event_partition = None,
                   latest_consumed_event_id = None,
                   trailing_unconsumed_partitioned_event_ids = [] \<rparr>)"

text \<open>\<^verbatim>\<open>json.dumps\<close> writes a component, a named tuple, as an array of its three
  fields.\<close>

definition component_to_json :: "MultiAssetSensorAssetCursorComponent \<Rightarrow> json" where
  "component_to_json c =
     JArr [case latest_consumed_event_partition c of None \<Rightarrow> JNull | Some p \<Rightarrow> JStr p,
           case latest_consumed_event_id c of None \<Rightarrow> JNull | Some i \<Rightarrow> JInt i,
           JObj (map (\<lambda>kv. (fst kv, JInt (snd kv)))
                   (trailing_unconsumed_partitioned_event_ids c))]"

definition cursor_to_json ::
  "(string \<times> MultiAssetSensorAssetCursorComponent) list \<Rightarrow> json" where
  "cursor_to_json components = JObj (map (\<lambda>kc. (fst kc, component_to_json (snd kc))) components)"

definition get_stringified_cursor :: "MultiAssetSensorContextCursor \<Rightarrow> string" where
  "get_stringified_cursor self = json_dumps (cursor_to_json (cursor_component_by_asset_key self))"

subsection \<open>The accumulator of advance requests and the tick context\<close>

record MultiAssetSensorCursorAdvances =
  advanced_record_ids_by_key :: "(AssetKey \<times> int set) list"
  partition_key_by_record_id :: "(int \<times> string option) list"
  advance_all_cursors_called :: bool

definition MultiAssetSensorCursorAdvances_init :: MultiAssetSensorCursorAdvances where
  "MultiAssetSensorCursorAdvances_init =
     \<lparr> advanced_record_ids_by_key = [], partition_key_by_record_id = [],
       advance_all_cursors_called = False \<rparr>"

text \<open>\<^verbatim>\<open>add_advanced_records\<close>: a mapping entry without a record adds nothing; the
  \<^verbatim>\<open>defaultdict(set)\<close> gets a key when the first id is added under it.\<close>

fun add_advanced_records ::
  "MultiAssetSensorCursorAdvances \<Rightarrow> (AssetKey \<times> EventLogRecord option) list
     \<Rightarrow> MultiAssetSensorCursorAdvances"
where
  "add_advanced_records self [] = self"
| "add_advanced_records self ((asset_key, None) # items) = add_advanced_records self items"
| "add_advanced_records self ((asset_key, Some materialization) # items) =
     add_advanced_records
       (self\<lparr> advanced_record_ids_by_key :=
                AList.update asset_key
                  (insert (storage_id materialization)
                     (case map_of (advanced_record_ids_by_key self) asset_key of
                        None \<Rightarrow> {}
                      | Some ids \<Rightarrow> ids))
                  (advanced_record_ids_by_key self),
              partition_key_by_record_id :=
                AList.update (storage_id materialization)
                  (get_partition_key_from_event_log_record materialization)
                  (partition_key_by_record_id self) \<rparr>)
       items"

text \<open>
  The tick context. Of \<^verbatim>\<open>MultiAssetSensorEvaluationContext\<close> the fields the cursor
  engine reads and writes are kept: the tracked asset keys (the keys of
  \<^verbatim>\<open>_assets_by_key\<close> too), the unpacked cursor, the flag set by the advance calls, the
  accumulator, the per-tick cache of the trailing events and the cursor string.
\<close>

record MultiAssetSensorEvaluationContext =
  asset_keys :: "AssetKey list"
  unpacked_cursor :: MultiAssetSensorContextCursor
  cursor_has_been_updated :: bool
  cursor_advance_state_mutation :: MultiAssetSensorCursorAdvances
  initial_unconsumed_events_by_id :: "(int \<times> EventLogRecord) list"
  fetched_initial_unconsumed_events :: bool
  cursor :: "string option"

definition MultiAssetSensorEvaluationContext_init ::
  "string option \<Rightarrow> AssetKey list \<Rightarrow> error + MultiAssetSensorEvaluationContext" where
  "MultiAssetSensorEvaluationContext_init cursor_str keys =
     (case MultiAssetSensorContextCursor_init cursor_str of
        Inl e \<Rightarrow> Inl e
      | Inr unpacked \<Rightarrow>
          Inr \<lparr> asset_keys = keys,
                unpacked_cursor = unpacked,
                cursor_has_been_updated = False,
                cursor_advance_state_mutation = MultiAssetSensorCursorAdvances_init,
                initial_unconsumed_events_by_id = [],
                fetched_initial_unconsumed_events = False,
                cursor = cursor_str \<rparr>)"

definition get_cursor ::
  "MultiAssetSensorEvaluationContext \<Rightarrow> AssetKey \<Rightarrow> MultiAssetSensorAssetCursorComponent" where
  "get_cursor self asset_key = get_cursor_for_asset (unpacked_cursor self) asset_key"

text \<open>\<^verbatim>\<open>_cache_initial_unconsumed_events\<close>: on its first call it fetches, for every
  tracked asset, the records whose ids are in the asset's trailing map.\<close>

fun cache_events ::
  "event_store \<Rightarrow> MultiAssetSensorContextCursor \<Rightarrow> AssetKey list
     \<Rightarrow> (int \<times> EventLogRecord) list \<Rightarrow> (int \<times> EventLogRecord) list"
where
  "cache_events store unpacked [] cache = cache"
| "cache_events store unpacked (asset_key # keys) cache =
     cache_events store unpacked keys
       (foldl (\<lambda>d event_record. AList.update (storage_id event_record) event_record d) cache
          (get_event_records store
             (any_event\<lparr> storage_ids :=
                Some (map snd (trailing_unconsumed_partitioned_event_ids
                                 (get_cursor_for_asset unpacked asset_key))) \<rparr>)
             False None))"

definition cache_initial_unconsumed_events ::
  "event_store \<Rightarrow> MultiAssetSensorEvaluationContext \<Rightarrow> MultiAssetSensorEvaluationContext" where
  "cache_initial_unconsumed_events store self =
     (if fetched_initial_unconsumed_events self then self
      else self\<lparr> initial_unconsumed_events_by_id :=
                   cache_events store (unpacked_cursor self) (asset_keys self)
                     (initial_unconsumed_events_by_id self),
                 fetched_initial_unconsumed_events := True \<rparr>)"

definition get_unconsumed_events_with_ids ::
  "event_store \<Rightarrow> MultiAssetSensorEvaluationContext \<Rightarrow> int list
     \<Rightarrow> EventLogRecord list \<times> MultiAssetSensorEvaluationContext" where
  "get_unconsumed_events_with_ids store self event_ids =
     (let self' = cache_initial_unconsumed_events store self
      in (concat (map (\<lambda>event_id.
                         case map_of (initial_unconsumed_events_by_id self') event_id of
                           Some event \<Rightarrow> [event]
                         | None \<Rightarrow> [])
                    (sort event_ids)),
          self'))"

definition get_trailing_unconsumed_events ::
  "event_store \<Rightarrow> MultiAssetSensorEvaluationContext \<Rightarrow> AssetKey
     \<Rightarrow> EventLogRecord list \<times> MultiAssetSensorEvaluationContext" where
  "get_trailing_unconsumed_events store self asset_key =
     get_unconsumed_events_with_ids store self
       (map snd (trailing_unconsumed_partitioned_event_ids (get_cursor self asset_key)))"

definition latest_materialization_records_by_key ::
  "event_store \<Rightarrow> MultiAssetSensorEvaluationContext \<Rightarrow> AssetKey list option
     \<Rightarrow> (AssetKey \<times> EventLogRecord option) list" where
  "latest_materialization_records_by_key store self keys_opt =
     (let keys = (case keys_opt of None \<Rightarrow> asset_keys self | Some ks \<Rightarrow> ks)
      in foldl (\<lambda>asset_event_records a.
                  AList.update a
                    (case get_event_records store
                            (any_event\<lparr> filter_asset_key := Some a,
                                        after_cursor := latest_consumed_event_id (get_cursor self a) \<rparr>)
                            False (Some 1) of
                       [] \<Rightarrow> None
                     | event_record # _ \<Rightarrow> Some event_record)
                    asset_event_records)
           [] keys)"

definition materialization_records_for_key ::
  "event_store \<Rightarrow> MultiAssetSensorEvaluationContext \<Rightarrow> AssetKey \<Rightarrow> nat
     \<Rightarrow> error + EventLogRecord list" where
  "materialization_records_for_key store self asset_key limit =
     (if asset_key \<notin> set (asset_keys self) then Inl DagsterInvalidInvocationError
      else Inr (get_event_records store
                  (any_event\<lparr> filter_asset_key := Some asset_key,
                              after_cursor := latest_consumed_event_id (get_cursor self asset_key) \<rparr>)
                  True (Some limit)))"

text \<open>\<^verbatim>\<open>get_cursor_partition\<close>. The first test is \<^verbatim>\<open>asset_key not in self._asset_keys\<close>,
  which holds of \<^verbatim>\<open>None\<close>; an \<^verbatim>\<open>AssetKey\<close> is truthy.\<close>

definition get_cursor_partition ::
  "MultiAssetSensorEvaluationContext \<Rightarrow> AssetKey option \<Rightarrow> error + string option" where
  "get_cursor_partition self asset_key =
     (if (case asset_key of None \<Rightarrow> True | Some k \<Rightarrow> k \<notin> set (asset_keys self))
      then Inl DagsterInvalidInvocationError
      else
        (case asset_key of
           Some k \<Rightarrow> Inr (latest_consumed_event_partition (get_cursor self k))
         | None \<Rightarrow>
             if length (asset_keys self) = 1
             then Inr (latest_consumed_event_partition (get_cursor self (hd (asset_keys self))))
             else Inl DagsterInvalidInvocationError))"

definition advance_cursor ::
  "MultiAssetSensorEvaluationContext \<Rightarrow> (AssetKey \<times> EventLogRecord option) list
     \<Rightarrow> MultiAssetSensorEvaluationContext" where
  "advance_cursor self materialization_records_by_key =
     self\<lparr> cursor_advance_state_mutation :=
              add_advanced_records (cursor_advance_state_mutation self)
                materialization_records_by_key,
            cursor_has_been_updated := True \<rparr>"

definition advance_all_cursors ::
  "event_store \<Rightarrow> MultiAssetSensorEvaluationContext \<Rightarrow> MultiAssetSensorEvaluationContext" where
  "advance_all_cursors store self =
     (let materializations_by_key = latest_materialization_records_by_key store self None
      in self\<lparr> cursor_advance_state_mutation :=
                 (add_advanced_records (cursor_advance_state_mutation self)
                    materializations_by_key)
                 \<lparr> advance_all_cursors_called := True \<rparr>,
               cursor_has_been_updated := True \<rparr>)"

subsection \<open>Computing the next cursor\<close>

text \<open>The loop of \<^verbatim>\<open>get_asset_cursor_with_advances\<close> over the unconsumed events, on the
  dict \<^verbatim>\<open>latest_unconsumed_record_by_partition\<close>.\<close>

fun record_unconsumed ::
  "int set \<Rightarrow> EventLogRecord list \<Rightarrow> (string \<times> int) list \<Rightarrow> (string \<times> int) list" where
  "record_unconsumed advanced_records [] latest_unconsumed_record_by_partition =
     latest_unconsumed_record_by_partition"
| "record_unconsumed advanced_records (event # events) latest_unconsumed_record_by_partition =
     record_unconsumed advanced_records events
       (case get_partition_key_from_event_log_record event of
          None \<Rightarrow> latest_unconsumed_record_by_partition
        | Some part \<Rightarrow>
            if storage_id event \<notin> advanced_records
            then AList.update part (storage_id event) latest_unconsumed_record_by_partition
            else if part \<in> fst ` set latest_unconsumed_record_by_partition
            then AList.delete part latest_unconsumed_record_by_partition
            else latest_unconsumed_record_by_partition)"

definition or_0 :: "int option \<Rightarrow> int" where
  "or_0 x = (case x of None \<Rightarrow> 0 | Some i \<Rightarrow> i)"

definition pop_consumed_partition :: "string option \<Rightarrow> (string \<times> int) list \<Rightarrow> (string \<times> int) list"
where
  "pop_consumed_partition latest_consumed_partition_in_tick d =
     (case latest_consumed_partition_in_tick of
        None \<Rightarrow> d
      | Some p \<Rightarrow> if p \<in> fst ` set d then AList.delete p d else d)"

definition get_asset_cursor_with_advances ::
  "MultiAssetSensorCursorAdvances \<Rightarrow> event_store \<Rightarrow> AssetKey \<Rightarrow> MultiAssetSensorEvaluationContext
     \<Rightarrow> MultiAssetSensorContextCursor
     \<Rightarrow> error + (MultiAssetSensorAssetCursorComponent \<times> MultiAssetSensorEvaluationContext)"
where
  "get_asset_cursor_with_advances self store asset_key context initial_cursor =
     (let advanced_records =
            (case map_of (advanced_record_ids_by_key self) asset_key of
               None \<Rightarrow> {}
             | Some ids \<Rightarrow> ids)
      in if advanced_records = {} then Inr (get_cursor_for_asset initial_cursor asset_key, context)
         else
           let initial_asset_cursor = get_cursor_for_asset initial_cursor asset_key;
               latest_consumed_event_id_at_tick_start =
                 latest_consumed_event_id initial_asset_cursor;
               greatest_consumed_event_id_in_tick = Max advanced_records
           in case map_of (partition_key_by_record_id self) greatest_consumed_event_id_in_tick of
                None \<Rightarrow> Inl KeyError
              | Some latest_consumed_partition_in_tick \<Rightarrow>
                  let (unconsumed, context') =
                        (if advance_all_cursors_called self then ([], context)
                         else
                           let (trailing_events, context1) =
                                 get_trailing_unconsumed_events store context asset_key;
                               unconsumed_events =
                                 trailing_events @
                                 (if greatest_consumed_event_id_in_tick
                                       > or_0 latest_consumed_event_id_at_tick_start
                                  then get_event_records store
                                         (any_event\<lparr> filter_asset_key := Some asset_key,
                                            after_cursor := latest_consumed_event_id_at_tick_start,
                                            before_cursor :=
                                              Some greatest_consumed_event_id_in_tick \<rparr>)
                                         True None
                                  else [])
                           in (pop_consumed_partition latest_consumed_partition_in_tick
                                 (record_unconsumed advanced_records unconsumed_events
                                    (trailing_unconsumed_partitioned_event_ids
                                       initial_asset_cursor)),
                               context1))
                  in if \<not> advance_all_cursors_called self
                        \<and> length unconsumed \<ge> MAX_NUM_UNCONSUMED_EVENTS
                     then Inl DagsterInvariantViolationError
                     else
                       Inr (\<lparr> latest_consumed_event_partition =
                                (if greatest_consumed_event_id_in_tick
                                      > or_0 latest_consumed_event_id_at_tick_start
                                 then latest_consumed_partition_in_tick
                                 else latest_consumed_event_partition initial_asset_cursor),
                              latest_consumed_event_id =
                                (if greatest_consumed_event_id_in_tick
                                      > or_0 latest_consumed_event_id_at_tick_start
                                 then Some greatest_consumed_event_id_in_tick
                                 else latest_consumed_event_id_at_tick_start),
                              trailing_unconsumed_partitioned_event_ids = unconsumed \<rparr>,
                            context'))"

text \<open>The dict comprehension of \<^verbatim>\<open>get_cursor_with_advances\<close> over
  \<^verbatim>\<open>context.asset_keys\<close>.\<close>

fun asset_cursors_with_advances ::
  "MultiAssetSensorCursorAdvances \<Rightarrow> event_store \<Rightarrow> MultiAssetSensorContextCursor
     \<Rightarrow> AssetKey list \<Rightarrow> MultiAssetSensorEvaluationContext
     \<Rightarrow> (string \<times> MultiAssetSensorAssetCursorComponent) list
     \<Rightarrow> error + ((string \<times> MultiAssetSensorAssetCursorComponent) list
                  \<times> MultiAssetSensorEvaluationContext)"
where
  "asset_cursors_with_advances self store initial_cursor [] context d = Inr (d, context)"
| "asset_cursors_with_advances self store initial_cursor (asset_key # keys) context d =
     (case get_asset_cursor_with_advances self store asset_key context initial_cursor of
        Inl e \<Rightarrow> Inl e
      | Inr (component, context') \<Rightarrow>
          asset_cursors_with_advances self store initial_cursor keys context'
            (AList.update (str asset_key) component d))"

definition get_cursor_with_advances ::
  "MultiAssetSensorCursorAdvances \<Rightarrow> event_store \<Rightarrow> MultiAssetSensorEvaluationContext
     \<Rightarrow> MultiAssetSensorContextCursor
     \<Rightarrow> error + (string option \<times> MultiAssetSensorEvaluationContext)" where
  "get_cursor_with_advances self store context initial_cursor =
     (if length (advanced_record_ids_by_key self) = 0 then Inr (None, context)
      else
        (case asset_cursors_with_advances self store initial_cursor (asset_keys context)
                context [] of
           Inl e \<Rightarrow> Inl e
         | Inr (d, context') \<Rightarrow> Inr (Some (json_dumps (cursor_to_json d)), context')))"

definition update_cursor_after_evaluation ::
  "event_store \<Rightarrow> MultiAssetSensorEvaluationContext \<Rightarrow> error + MultiAssetSensorEvaluationContext"
where
  "update_cursor_after_evaluation store self =
     (case get_cursor_with_advances (cursor_advance_state_mutation self) store self
             (unpacked_cursor self) of
        Inl e \<Rightarrow> Inl e
      | Inr (new_cursor, self') \<Rightarrow>
          if new_cursor \<noteq> None then
            (case MultiAssetSensorContextCursor_init new_cursor of
               Inl e \<Rightarrow> Inl e
             | Inr unpacked \<Rightarrow>
                 Inr (self'\<lparr> cursor := new_cursor,
                             unpacked_cursor := unpacked,
                             cursor_advance_state_mutation :=
                               MultiAssetSensorCursorAdvances_init \<rparr>))
          else Inr self')"

subsection \<open>The evaluation function of a multi-asset sensor\<close>

text \<open>
  The user's evaluation function is Python code given the context. It is represented by
  the calls it makes on the context, in order, and by what it returns: nothing, a
  generator or list of items, a bare \<^verbatim>\<open>RunRequest\<close>, a bare \<^verbatim>\<open>SkipReason\<close>, or
  something else. The calls of a generator happen while it is drained, before the statement
  that follows the draining loop. The calls are the two advance methods and the queries
  \<^verbatim>\<open>get_trailing_unconsumed_events\<close>, \<^verbatim>\<open>latest_materialization_records_by_key\<close>,
  \<^verbatim>\<open>materialization_records_for_key\<close> and \<^verbatim>\<open>get_cursor_partition\<close>; a query that
  raises leaves the context as it is. The remaining queries read the partition definitions
  of the assets, which are not part of this model; they write nothing but the cache of
  trailing events, as \<^verbatim>\<open>get_trailing_unconsumed_events\<close> does.
\<close>

datatype context_call =
    Get_trailing_unconsumed_events AssetKey
  | Latest_materialization_records_by_key "AssetKey list option"
  | Materialization_records_for_key AssetKey nat
  | Get_cursor_partition "AssetKey option"
  | Advance_cursor "(AssetKey \<times> EventLogRecord option) list"
  | Advance_all_cursors

fun call :: "event_store \<Rightarrow> MultiAssetSensorEvaluationContext \<Rightarrow> context_call
               \<Rightarrow> MultiAssetSensorEvaluationContext" where
  "call store context (Get_trailing_unconsumed_events k) =
     snd (get_trailing_unconsumed_events store context k)"
| "call store context (Latest_materialization_records_by_key ks) = context"
| "call store context (Materialization_records_for_key k limit) = context"
| "call store context (Get_cursor_partition k) = context"
| "call store context (Advance_cursor records) = advance_cursor context records"
| "call store context Advance_all_cursors = advance_all_cursors store context"

datatype sensor_item = RunRequest "string option" | SkipReason string | OtherItem

datatype fn_result =
    ReturnsNone
  | ReturnsItems "sensor_item list"
  | ReturnsRunRequest "string option"
  | ReturnsSkipReason string
  | ReturnsOther

record materialization_fn =
  calls :: "context_call list"
  result :: fn_result

text \<open>\<^verbatim>\<open>_fn\<close> of \<^verbatim>\<open>MultiAssetSensorDefinition.__init__._wrap_asset_fn\<close>: the items it
  yields and the context it leaves, or the error it raises.\<close>

definition wrap_asset_fn ::
  "event_store \<Rightarrow> materialization_fn \<Rightarrow> MultiAssetSensorEvaluationContext
     \<Rightarrow> error + (sensor_item list \<times> MultiAssetSensorEvaluationContext)" where
  "wrap_asset_fn store fn context =
     (let context1 = foldl (call store) context (calls fn)
      in case result fn of
           ReturnsNone \<Rightarrow> Inr ([], context1)
         | res \<Rightarrow>
             let items = (case res of
                            ReturnsItems xs \<Rightarrow> xs
                          | ReturnsRunRequest job_name \<Rightarrow> [RunRequest job_name]
                          | ReturnsSkipReason msg \<Rightarrow> [SkipReason msg]
                          | _ \<Rightarrow> []);
                 runs_yielded = (case res of
                                   ReturnsItems xs \<Rightarrow> xs \<noteq> []
                                 | ReturnsRunRequest job_name \<Rightarrow> True
                                 | _ \<Rightarrow> False)
             in if runs_yielded \<and> \<not> cursor_has_been_updated context1
                then Inl DagsterInvalidDefinitionError
                else
                  (case update_cursor_after_evaluation store context1 of
                     Inl e \<Rightarrow> Inl e
                   | Inr context2 \<Rightarrow> Inr (items, context2)))"

subsection \<open>Classes of context calls and example inputs\<close>

fun is_advance_call :: "context_call \<Rightarrow> bool" where
  "is_advance_call (Advance_cursor records) = True"
| "is_advance_call Advance_all_cursors = True"
| "is_advance_call _ = False"

text \<open>A call that adds no record to the accumulator whatever the store holds: a query, or
  \<^verbatim>\<open>advance_cursor\<close> with a mapping whose values are all \<^verbatim>\<open>None\<close>.\<close>

fun advances_nothing :: "context_call \<Rightarrow> bool" where
  "advances_nothing (Advance_cursor records) = list_all (\<lambda>kv. snd kv = None) records"
| "advances_nothing Advance_all_cursors = False"
| "advances_nothing _ = True"

definition materialization :: "int \<Rightarrow> string \<Rightarrow> string option \<Rightarrow> EventLogRecord" where
  "materialization i k p =
     \<lparr> storage_id = i,
       dagster_event = Some \<lparr> event_asset_key = Some (AssetKey k), event_partition = p \<rparr> \<rparr>"

definition tick_context ::
  "(string \<times> MultiAssetSensorAssetCursorComponent) list \<Rightarrow> string option \<Rightarrow> AssetKey list
     \<Rightarrow> MultiAssetSensorEvaluationContext" where
  "tick_context components cursor_str keys =
     \<lparr> asset_keys = keys,
       unpacked_cursor =
         \<lparr> cursor_component_by_asset_key = components,
           initial_latest_consumed_event_ids_by_asset_key =
             map (\<lambda>kc. (fst kc, latest_consumed_event_id (snd kc))) components \<rparr>,
       cursor_has_been_updated = False,
       cursor_advance_state_mutation = MultiAssetSensorCursorAdvances_init,
       initial_unconsumed_events_by_id = [],
       fetched_initial_unconsumed_events = False,
       cursor = cursor_str \<rparr>"

text \<open>One tracked asset \<^verbatim>\<open>a\<close>, consumed up to event 5 of partition \<^verbatim>\<open>p1\<close>, with event 3
  of partition \<^verbatim>\<open>p0\<close> trailing unconsumed; the store holds nothing newer.\<close>

definition backlog_store :: event_store where
  "backlog_store = [materialization 3 ''a'' (Some ''p0''), materialization 5 ''a'' (Some ''p1'')]"

definition backlog_context :: MultiAssetSensorEvaluationContext where
  "backlog_context =
     tick_context
       [(''a'', \<lparr> latest_consumed_event_partition = Some ''p1'',
                  latest_consumed_event_id = Some 5,
                  trailing_unconsumed_partitioned_event_ids = [(''p0'', 3)] \<rparr>)]
       (Some (json_dumps (JObj [(''a'', JArr [JStr ''p1'', JInt 5, JObj [(''p0'', JInt 3)]])])))
       [AssetKey ''a'']"

subsection \<open>The recomputation of the trailing map, by parts and in the words of the spec\<close>












subsection \<open>Serialized text and the values that survive it\<close>

text \<open>
  Predicates and text shapes for the round trip through \<^verbatim>\<open>json.dumps\<close> and
  \<^verbatim>\<open>json.loads\<close>: what may follow a number and a value in serialized text, the values
  without a float whose objects have distinct keys, and the text of an object's members
  after the first quote. A value scans when the scanner reads it back from its text with
  enough fuel, whatever follows.
\<close>

definition ends_number :: "string \<Rightarrow> bool" where
  "ends_number rest =
     (case rest of
        [] \<Rightarrow> True
      | c # _ \<Rightarrow> \<not> is_digit c \<and> c \<noteq> CHR ''.'' \<and> c \<noteq> CHR ''e'' \<and> c \<noteq> CHR ''E'')"

definition ends_value :: "string \<Rightarrow> bool" where
  "ends_value rest =
     (case rest of
        [] \<Rightarrow> True
      | c # _ \<Rightarrow> c = CHR '','' \<or> c = CHR '']'' \<or> c = CHR ''}'')"

fun wf_json :: "json \<Rightarrow> bool" where
  "wf_json (JFloat lit) = False"
| "wf_json (JArr xs) = (\<forall>x \<in> set xs. wf_json x)"
| "wf_json (JObj kvs) = (distinct (map fst kvs) \<and> (\<forall>kv \<in> set kvs. wf_json (snd kv)))"
| "wf_json _ = True"

definition scans :: "json \<Rightarrow> bool" where
  "scans j \<longleftrightarrow>
     (\<forall>rest fuel. ends_value rest \<longrightarrow> 2 * length (json_dumps j @ rest) + 1 \<le> fuel
        \<longrightarrow> scan_once fuel (json_dumps j @ rest) = Some (j, rest))"

definition first_ok :: "string \<Rightarrow> bool" where
  "first_ok s = (case s of [] \<Rightarrow> False | c # _ \<Rightarrow> \<not> is_ws c \<and> c \<noteq> CHR '']'')"

definition member_text :: "string \<times> json \<Rightarrow> string" where
  "member_text kv =
     concat (map escape_char (fst kv)) @ CHR 0x22 # CHR '':'' # CHR '' '' # json_dumps (snd kv)"

fun obj_tail :: "(string \<times> json) list \<Rightarrow> string" where
  "obj_tail [] = []"
| "obj_tail [kv] = member_text kv"
| "obj_tail (kv # kv' # kvs) =
     member_text kv @ CHR '','' # CHR '' '' # CHR 0x22 # obj_tail (kv' # kvs)"


section \<open>Properties\<close>

subsection \<open>What the context calls leave unchanged\<close>

lemma call_cursor: "cursor (call store ctx c) = cursor ctx"
  by (cases c)
     (simp_all add: get_trailing_unconsumed_events_def get_unconsumed_events_with_ids_def
        cache_initial_unconsumed_events_def advance_cursor_def advance_all_cursors_def Let_def)

lemma foldl_call_cursor: "cursor (foldl (call store) ctx cs) = cursor ctx"
  by (induction cs arbitrary: ctx) (simp_all add: call_cursor)

lemma init_fields:
  assumes "MultiAssetSensorEvaluationContext_init cursor_str keys = Inr ctx0"
  shows "cursor ctx0 = cursor_str"
    and "\<not> cursor_has_been_updated ctx0"
    and "cursor_advance_state_mutation ctx0 = MultiAssetSensorCursorAdvances_init"
    and "asset_keys ctx0 = keys"
  using assms
  by (auto simp: MultiAssetSensorEvaluationContext_init_def split: sum.splits)

lemma update_no_advances:
  "advanced_record_ids_by_key (cursor_advance_state_mutation ctx) = []
   \<Longrightarrow> update_cursor_after_evaluation store ctx = Inr ctx"
  by (simp add: update_cursor_after_evaluation_def get_cursor_with_advances_def)

lemma call_query_flag:
  "\<not> is_advance_call c
   \<Longrightarrow> cursor_has_been_updated (call store ctx c) = cursor_has_been_updated ctx"
  by (cases c)
     (simp_all add: get_trailing_unconsumed_events_def get_unconsumed_events_with_ids_def
        cache_initial_unconsumed_events_def Let_def)

lemma foldl_query_flag:
  "list_all (\<lambda>c. \<not> is_advance_call c) cs
   \<Longrightarrow> cursor_has_been_updated (foldl (call store) ctx cs) = cursor_has_been_updated ctx"
  by (induction cs arbitrary: ctx) (simp_all add: call_query_flag)

lemma call_flag_stays:
  "cursor_has_been_updated ctx \<Longrightarrow> cursor_has_been_updated (call store ctx c)"
  by (cases c)
     (simp_all add: get_trailing_unconsumed_events_def get_unconsumed_events_with_ids_def
        cache_initial_unconsumed_events_def advance_cursor_def advance_all_cursors_def Let_def)

lemma foldl_flag_stays:
  "cursor_has_been_updated ctx \<Longrightarrow> cursor_has_been_updated (foldl (call store) ctx cs)"
  by (induction cs arbitrary: ctx) (simp_all add: call_flag_stays)

lemma call_advance_flag:
  "is_advance_call c \<Longrightarrow> cursor_has_been_updated (call store ctx c)"
  by (cases c) (simp_all add: advance_cursor_def advance_all_cursors_def Let_def)

lemma foldl_advance_flag:
  "\<exists>c \<in> set cs. is_advance_call c \<Longrightarrow> cursor_has_been_updated (foldl (call store) ctx cs)"
proof (induction cs arbitrary: ctx)
  case Nil
  then show ?case by simp
next
  case (Cons c cs)
  show ?case
  proof (cases "is_advance_call c")
    case True
    then show ?thesis by (simp add: call_advance_flag foldl_flag_stays)
  next
    case False
    with Cons.prems have "\<exists>c \<in> set cs. is_advance_call c" by auto
    then show ?thesis using Cons.IH by simp
  qed
qed

lemma add_advanced_records_none:
  "list_all (\<lambda>kv. snd kv = None) records \<Longrightarrow> add_advanced_records self records = self"
  by (induction self records rule: add_advanced_records.induct) simp_all

lemma call_advances_nothing:
  "advances_nothing c
   \<Longrightarrow> cursor_advance_state_mutation (call store ctx c) = cursor_advance_state_mutation ctx"
  by (cases c)
     (simp_all add: get_trailing_unconsumed_events_def get_unconsumed_events_with_ids_def
        cache_initial_unconsumed_events_def advance_cursor_def add_advanced_records_none Let_def)

lemma foldl_advances_nothing:
  "list_all advances_nothing cs
   \<Longrightarrow> cursor_advance_state_mutation (foldl (call store) ctx cs)
       = cursor_advance_state_mutation ctx"
  by (induction cs arbitrary: ctx) (simp_all add: call_advances_nothing)

lemma get_cursor_partition_None:
  "get_cursor_partition ctx None = Inl DagsterInvalidInvocationError"
  by (simp add: get_cursor_partition_def)

subsection \<open>Ticks without recorded advances\<close>

text \<open>
  Claim C3. When the accumulator holds no advanced record at the end of the user's calls
  (no \<^verbatim>\<open>advance_cursor\<close> or \<^verbatim>\<open>advance_all_cursors\<close> call recorded an event),
  \<^verbatim>\<open>update_cursor_after_evaluation\<close> returns the context as it is, and the cursor string
  is the string the tick started with, whatever queries and advance calls were made on the
  context; so is the cursor string of every tick that \<^verbatim>\<open>_fn\<close> completes.
\<close>

theorem no_advance_keeps_cursor_string:
  assumes init: "MultiAssetSensorEvaluationContext_init cursor_str keys = Inr context0"
    and none: "advanced_record_ids_by_key
                 (cursor_advance_state_mutation (foldl (call store) context0 cs)) = []"
  shows "update_cursor_after_evaluation store (foldl (call store) context0 cs)
           = Inr (foldl (call store) context0 cs)
         \<and> cursor (foldl (call store) context0 cs) = cursor_str
         \<and> (\<forall>items context'.
               wrap_asset_fn store \<lparr> calls = cs, result = res \<rparr> context0 = Inr (items, context')
               \<longrightarrow> cursor context' = cursor_str)"
proof -
  let ?c1 = "foldl (call store) context0 cs"
  have a: "update_cursor_after_evaluation store ?c1 = Inr ?c1"
    using none by (rule update_no_advances)
  have b: "cursor ?c1 = cursor_str"
    using init by (simp add: foldl_call_cursor init_fields(1))
  have c: "cursor context' = cursor_str"
    if "wrap_asset_fn store \<lparr> calls = cs, result = res \<rparr> context0 = Inr (items, context')"
    for items context'
    using that a b
    by (cases res) (auto simp: wrap_asset_fn_def Let_def split: if_splits)
  show ?thesis using a b c by blast
qed

text \<open>
  Claim C10. A tick whose calls are queries and \<^verbatim>\<open>advance_cursor\<close> calls with mappings
  that hold only \<^verbatim>\<open>None\<close>, at least one such \<^verbatim>\<open>advance_cursor\<close> among them, records no
  advanced id and still sets the updated flag: \<^verbatim>\<open>_fn\<close> yields the user's items, however
  many, without raising, and leaves the cursor string of the tick start.
\<close>

theorem advance_cursor_of_none_passes_guard:
  assumes init: "MultiAssetSensorEvaluationContext_init cursor_str keys = Inr context0"
    and quiet: "list_all advances_nothing cs"
    and called: "\<exists>records. Advance_cursor records \<in> set cs"
  shows "\<exists>context'.
           wrap_asset_fn store \<lparr> calls = cs, result = ReturnsItems xs \<rparr> context0
             = Inr (xs, context')
           \<and> cursor_has_been_updated context'
           \<and> advanced_record_ids_by_key (cursor_advance_state_mutation context') = []
           \<and> cursor context' = cursor_str"
proof -
  let ?c1 = "foldl (call store) context0 cs"
  have acc: "cursor_advance_state_mutation ?c1 = MultiAssetSensorCursorAdvances_init"
    using quiet init by (simp add: foldl_advances_nothing init_fields(3))
  then have empty: "advanced_record_ids_by_key (cursor_advance_state_mutation ?c1) = []"
    by (simp add: MultiAssetSensorCursorAdvances_init_def)
  have "\<exists>c \<in> set cs. is_advance_call c"
    using called by force
  then have flag: "cursor_has_been_updated ?c1"
    by (rule foldl_advance_flag)
  have fin: "update_cursor_after_evaluation store ?c1 = Inr ?c1"
    using empty by (rule update_no_advances)
  have "wrap_asset_fn store \<lparr> calls = cs, result = ReturnsItems xs \<rparr> context0 = Inr (xs, ?c1)"
    using flag fin by (simp add: wrap_asset_fn_def Let_def)
  moreover have "cursor ?c1 = cursor_str"
    using init by (simp add: foldl_call_cursor init_fields(1))
  ultimately show ?thesis using flag empty by blast
qed

subsection \<open>The guard on yielded results\<close>

text \<open>
  Claim C9, as amended. In a tick without any \<^verbatim>\<open>advance_cursor\<close> or
  \<^verbatim>\<open>advance_all_cursors\<close> call, \<^verbatim>\<open>_fn\<close> raises \<^verbatim>\<open>DagsterInvalidDefinitionError\<close> when
  the user's function returns a generator or list that yields at least one item, or a bare
  \<^verbatim>\<open>RunRequest\<close>; when it returns a bare \<^verbatim>\<open>SkipReason\<close>, \<^verbatim>\<open>_fn\<close> yields it and
  completes.
\<close>

theorem missing_advance_guard:
  assumes init: "MultiAssetSensorEvaluationContext_init cursor_str keys = Inr context0"
    and queries: "list_all (\<lambda>c. \<not> is_advance_call c) cs"
  shows "(xs \<noteq> [] \<longrightarrow>
            wrap_asset_fn store \<lparr> calls = cs, result = ReturnsItems xs \<rparr> context0
              = Inl DagsterInvalidDefinitionError)
         \<and> wrap_asset_fn store \<lparr> calls = cs, result = ReturnsRunRequest job_name \<rparr> context0
              = Inl DagsterInvalidDefinitionError
         \<and> wrap_asset_fn store \<lparr> calls = cs, result = ReturnsSkipReason msg \<rparr> context0
              = Inr ([SkipReason msg], foldl (call store) context0 cs)"
proof -
  let ?c1 = "foldl (call store) context0 cs"
  have flag: "\<not> cursor_has_been_updated ?c1"
    using queries init by (simp add: foldl_query_flag init_fields(2))
  have "cursor_advance_state_mutation ?c1 = MultiAssetSensorCursorAdvances_init"
  proof -
    have "list_all advances_nothing cs"
      using queries
    proof (induction cs)
      case Nil
      then show ?case by simp
    next
      case (Cons c cs)
      then show ?case by (cases c) simp_all
    qed
    then show ?thesis using init by (simp add: foldl_advances_nothing init_fields(3))
  qed
  then have "advanced_record_ids_by_key (cursor_advance_state_mutation ?c1) = []"
    by (simp add: MultiAssetSensorCursorAdvances_init_def)
  then have fin: "update_cursor_after_evaluation store ?c1 = Inr ?c1"
    by (rule update_no_advances)
  show ?thesis using flag fin by (simp add: wrap_asset_fn_def Let_def)
qed

text \<open>The claim as stated fails: a tick that makes no advance call and whose function
  returns a bare \<^verbatim>\<open>SkipReason\<close> completes, with the \<^verbatim>\<open>SkipReason\<close> yielded.\<close>

theorem bare_skip_reason_completes:
  "wrap_asset_fn [] \<lparr> calls = [], result = ReturnsSkipReason ''nothing new'' \<rparr>
     (tick_context [] None [AssetKey ''a''])
   = Inr ([SkipReason ''nothing new''], tick_context [] None [AssetKey ''a''])"
  by (simp add: wrap_asset_fn_def update_cursor_after_evaluation_def get_cursor_with_advances_def
        MultiAssetSensorCursorAdvances_init_def tick_context_def)

subsection \<open>Instances on the example inputs\<close>

lemma backlog_context_init:
  "MultiAssetSensorEvaluationContext_init
     (Some (json_dumps (JObj [(''a'', JArr [JStr ''p1'', JInt 5, JObj [(''p0'', JInt 3)]])])))
     [AssetKey ''a''] = Inr backlog_context"
  by code_simp

theorem no_advance_keeps_cursor_string_witness:
  "MultiAssetSensorEvaluationContext_init
     (Some (json_dumps (JObj [(''a'', JArr [JStr ''p1'', JInt 5, JObj [(''p0'', JInt 3)]])])))
     [AssetKey ''a''] = Inr backlog_context
   \<and> advanced_record_ids_by_key
       (cursor_advance_state_mutation
          (foldl (call backlog_store) backlog_context
             [Get_trailing_unconsumed_events (AssetKey ''a''), Advance_all_cursors])) = []
   \<and> cursor (foldl (call backlog_store) backlog_context
               [Get_trailing_unconsumed_events (AssetKey ''a''), Advance_all_cursors])
       = Some (json_dumps (JObj [(''a'', JArr [JStr ''p1'', JInt 5, JObj [(''p0'', JInt 3)]])]))"
proof -
  have h: "advanced_record_ids_by_key
       (cursor_advance_state_mutation
          (foldl (call backlog_store) backlog_context
             [Get_trailing_unconsumed_events (AssetKey ''a''), Advance_all_cursors])) = []"
    by code_simp
  show ?thesis
    using h no_advance_keeps_cursor_string [OF backlog_context_init h, of ReturnsNone]
      backlog_context_init
    by simp
qed

theorem advance_cursor_of_none_passes_guard_witness:
  "list_all advances_nothing [Advance_cursor [(AssetKey ''a'', None)]]
   \<and> (\<exists>context'.
         wrap_asset_fn backlog_store
           \<lparr> calls = [Advance_cursor [(AssetKey ''a'', None)]],
             result = ReturnsItems [RunRequest None] \<rparr> backlog_context
           = Inr ([RunRequest None], context')
         \<and> cursor_has_been_updated context'
         \<and> advanced_record_ids_by_key (cursor_advance_state_mutation context') = []
         \<and> cursor context'
             = Some (json_dumps
                 (JObj [(''a'', JArr [JStr ''p1'', JInt 5, JObj [(''p0'', JInt 3)]])])))"
proof -
  have q: "list_all advances_nothing [Advance_cursor [(AssetKey ''a'', None)]]"
    by simp
  have c: "\<exists>records. Advance_cursor records \<in> set [Advance_cursor [(AssetKey ''a'', None)]]"
    by simp
  show ?thesis
    using q advance_cursor_of_none_passes_guard [OF backlog_context_init q c]
    by simp
qed

theorem missing_advance_guard_witness:
  "list_all (\<lambda>c. \<not> is_advance_call c) [Get_cursor_partition (Some (AssetKey ''a''))]
   \<and> wrap_asset_fn backlog_store
       \<lparr> calls = [Get_cursor_partition (Some (AssetKey ''a''))],
         result = ReturnsItems [RunRequest None] \<rparr> backlog_context
       = Inl DagsterInvalidDefinitionError
   \<and> wrap_asset_fn backlog_store
       \<lparr> calls = [Get_cursor_partition (Some (AssetKey ''a''))],
         result = ReturnsRunRequest None \<rparr> backlog_context
       = Inl DagsterInvalidDefinitionError"
proof -
  have q: "list_all (\<lambda>c. \<not> is_advance_call c) [Get_cursor_partition (Some (AssetKey ''a''))]"
    by simp
  show ?thesis
    using q missing_advance_guard [OF backlog_context_init q, of "[RunRequest None]"]
    by simp
qed

subsection \<open>Defects\<close>

text \<open>
  Claim C5 at a failing input. One tracked asset with the trailing entry \<^verbatim>\<open>p0: 3\<close> and no
  event after its consumed id 5: \<^verbatim>\<open>advance_all_cursors\<close> finds no latest materialization,
  records nothing, and the finalized context keeps the cursor string and the trailing entry.
\<close>

theorem advance_all_cursors_keeps_backlog:
  "(case update_cursor_after_evaluation backlog_store
           (advance_all_cursors backlog_store backlog_context) of
      Inl e \<Rightarrow> False
    | Inr context' \<Rightarrow>
        advance_all_cursors_called (cursor_advance_state_mutation context')
        \<and> cursor context' = cursor backlog_context
        \<and> trailing_unconsumed_partitioned_event_ids (get_cursor context' (AssetKey ''a''))
            = [(''p0'', 3)])"
  by code_simp

text \<open>
  Claim C8 at a failing input. With the single tracked asset \<^verbatim>\<open>a\<close>, whose consumed
  partition is \<^verbatim>\<open>p1\<close>, \<^verbatim>\<open>get_cursor_partition\<close> returns the marker for the key
  \<^verbatim>\<open>a\<close> and raises when the key is omitted.
\<close>

theorem get_cursor_partition_omitted_key_raises:
  "asset_keys backlog_context = [AssetKey ''a'']
   \<and> get_cursor_partition backlog_context (Some (AssetKey ''a'')) = Inr (Some ''p1'')
   \<and> get_cursor_partition backlog_context None = Inl DagsterInvalidInvocationError"
  by code_simp

subsection \<open>The component computed for an asset with advance requests\<close>
















subsection \<open>The round trip through json.dumps and json.loads\<close>

lemma of_char_bound: "(of_char (c::char) :: nat) < 256"
  by (metis of_char_mod_256 mod_less_divisor zero_less_numeral)

lemma hex_val_hex_digit: "k < 16 \<Longrightarrow> hex_val (hex_digit k) = Some k"
  by (auto simp: hex_val_def hex_digit_def Let_def)

lemma hex4_byte:
  "n < 256 \<Longrightarrow> hex4 (CHR ''0'') (CHR ''0'') (hex_digit (n div 16)) (hex_digit (n mod 16)) = Some n"
proof -
  assume n: "n < 256"
  have a: "hex_val (CHR ''0'') = Some 0" by (simp add: hex_val_def)
  have b: "hex_val (hex_digit (n div 16)) = Some (n div 16)"
    using n by (intro hex_val_hex_digit) simp
  have c: "hex_val (hex_digit (n mod 16)) = Some (n mod 16)"
    by (intro hex_val_hex_digit) simp
  show ?thesis by (simp add: hex4_def a b c)
qed

lemma scan_escape: "scanstring (escape_char c @ t) = cons_result c (scanstring t)"
proof -
  let ?n = "of_char c :: nat"
  have n: "?n < 256" by (rule of_char_bound)
  consider (special) "c \<in> {CHR 0x22, CHR 0x5C, CHR 0x0A, CHR 0x0D, CHR 0x09, CHR 0x0C, CHR 0x08}"
    | (plain) "c \<notin> {CHR 0x22, CHR 0x5C, CHR 0x0A, CHR 0x0D, CHR 0x09, CHR 0x0C, CHR 0x08}"
        "32 \<le> ?n \<and> ?n \<le> 126"
    | (hex) "c \<notin> {CHR 0x22, CHR 0x5C, CHR 0x0A, CHR 0x0D, CHR 0x09, CHR 0x0C, CHR 0x08}"
        "\<not> (32 \<le> ?n \<and> ?n \<le> 126)"
    by blast
  then show ?thesis
  proof cases
    case special
    then show ?thesis
      by (auto simp: escape_char_def unescape_def)
  next
    case plain
    then show ?thesis
      by (auto simp: escape_char_def)
  next
    case hex
    have "escape_char c = [CHR 0x5C, CHR ''u'', CHR ''0'', CHR ''0'',
            hex_digit (?n div 16), hex_digit (?n mod 16)]"
      using hex by (auto simp: escape_char_def)
    then show ?thesis
      using n by (simp add: hex4_byte)
  qed
qed

lemma scanstring_dumps:
  "scanstring (concat (map escape_char s) @ CHR 0x22 # rest) = Some (s, rest)"
  by (induction s) (simp_all add: scan_escape cons_result_def)

lemma is_digit_char_of: "(k::nat) < 10 \<Longrightarrow> is_digit (char_of (48 + k))"
  by (simp add: is_digit_def)

lemma digit_value: "k < 10 \<Longrightarrow> (of_char (char_of (48 + k) :: char) :: nat) - 48 = k"
  by simp

lemma digits_all: "\<forall>c \<in> set (digits_of_nat n). is_digit c"
proof (induction n rule: digits_of_nat.induct)
  case (1 n)
  show ?case
  proof (cases "n < 10")
    case True
    then show ?thesis by (subst digits_of_nat.simps) (simp add: is_digit_char_of)
  next
    case False
    then show ?thesis using 1
      by (subst digits_of_nat.simps) (simp add: is_digit_char_of)
  qed
qed

lemma digits_ne: "digits_of_nat n \<noteq> []"
  by (subst digits_of_nat.simps) simp

lemma char_of_48: "(char_of (48::nat) :: char) = CHR ''0''"
proof -
  have "(of_char (char_of (48::nat) :: char) :: nat) = of_char (CHR ''0'')" by simp
  then show ?thesis by (simp only: of_char_eq_iff)
qed

lemma digits_zero: "digits_of_nat 0 = ''0''"
  by (subst digits_of_nat.simps) (simp add: char_of_48)

lemma digits_hd: "0 < n \<Longrightarrow> hd (digits_of_nat n) \<noteq> CHR ''0''"
proof (induction n rule: digits_of_nat.induct)
  case (1 n)
  show ?case
  proof (cases "n < 10")
    case True
    have "(of_char (char_of (48 + n) :: char) :: nat) \<noteq> of_char (CHR ''0'')"
      using True 1(2) by simp
    then have "(char_of (48 + n) :: char) \<noteq> CHR ''0''" by metis
    then show ?thesis using True by (subst digits_of_nat.simps) simp
  next
    case False
    then have "0 < n div 10" by simp
    then have "hd (digits_of_nat (n div 10)) \<noteq> CHR ''0''" using 1(1) False by simp
    then show ?thesis using False digits_ne [of "n div 10"]
      by (subst digits_of_nat.simps) simp
  qed
qed

lemma nat_of_digits_snoc:
  "nat_of_digits (ds @ [d]) = nat_of_digits ds * 10 + ((of_char d :: nat) - 48)"
  by (simp add: nat_of_digits_def)

lemma nat_of_digits_of_nat: "nat_of_digits (digits_of_nat n) = n"
proof (induction n rule: digits_of_nat.induct)
  case (1 n)
  show ?case
  proof (cases "n < 10")
    case True
    then show ?thesis
      by (subst digits_of_nat.simps) (simp add: nat_of_digits_def)
  next
    case False
    then show ?thesis using 1
      by (subst digits_of_nat.simps) (simp add: nat_of_digits_snoc)
  qed
qed

lemma takeWhile_digits:
  "\<forall>c \<in> set ds. is_digit c \<Longrightarrow> ends_number rest \<Longrightarrow> takeWhile is_digit (ds @ rest) = ds"
  by (cases rest) (auto simp: ends_number_def takeWhile_append2)

lemma dropWhile_digits:
  "\<forall>c \<in> set ds. is_digit c \<Longrightarrow> ends_number rest \<Longrightarrow> dropWhile is_digit (ds @ rest) = rest"
  by (cases rest) (auto simp: ends_number_def dropWhile_append2)

lemma no_frac:
  "ends_number rest \<Longrightarrow> (case rest of p # d # x \<Rightarrow> p = CHR ''.'' \<and> is_digit d | _ \<Rightarrow> False) = False"
  by (auto simp: ends_number_def split: list.splits)

lemma no_exp:
  "ends_number rest \<Longrightarrow>
   (case rest of
      e # d # r' \<Rightarrow>
        if e = CHR ''e'' \<or> e = CHR ''E'' then
          (if is_digit d then 1
           else if (d = CHR ''+'' \<or> d = CHR ''-'')
                   \<and> (case r' of d' # _ \<Rightarrow> is_digit d' | [] \<Rightarrow> False)
           then 2 else 0)
        else 0
    | _ \<Rightarrow> (0::nat)) = 0"
  by (auto simp: ends_number_def split: list.splits)

lemma match_digits:
  assumes ds: "ds = digits_of_nat n" and rest: "ends_number rest"
  shows "match_number (ds @ rest) = Some (JInt (int n), rest)"
proof -
  obtain d0 ds' where dn: "digits_of_nat n = d0 # ds'"
    by (cases "digits_of_nat n") (simp_all add: digits_ne)
  then have cons: "ds = d0 # ds'" using ds by simp
  have all: "\<forall>c \<in> set ds. is_digit c" using ds digits_all by simp
  then have d0: "is_digit d0" and all': "\<forall>c \<in> set ds'. is_digit c" using cons by auto
  have not_minus: "d0 \<noteq> CHR ''-''" using d0 by (auto simp: is_digit_def)
  have val: "nat_of_digits ds = n" using ds nat_of_digits_of_nat by simp
  show ?thesis
  proof (cases "d0 = CHR ''0''")
    case True
    have "n = 0"
    proof (rule ccontr)
      assume "n \<noteq> 0"
      then have "hd (digits_of_nat n) \<noteq> CHR ''0''" using digits_hd by simp
      then show False using dn True by simp
    qed
    then have "ds = ''0''" using ds digits_zero by simp
    then have ds': "ds' = []" using cons by simp
    show ?thesis
      using True ds' cons val rest d0 \<open>n = 0\<close>
      by (simp add: match_number_def Let_def no_frac no_exp nat_of_digits_def)
  next
    case False
    have tw: "takeWhile is_digit (ds' @ rest) = ds'" using all' rest by (rule takeWhile_digits)
    have dw: "dropWhile is_digit (ds' @ rest) = rest" using all' rest by (rule dropWhile_digits)
    show ?thesis
      using False cons val rest d0 not_minus tw dw
      by (simp add: match_number_def Let_def no_frac no_exp)
  qed
qed

lemma match_neg_digits:
  assumes ds: "ds = digits_of_nat n" and rest: "ends_number rest"
  shows "match_number (CHR ''-'' # ds @ rest) = Some (JInt (- int n), rest)"
proof -
  obtain d0 ds' where dn: "digits_of_nat n = d0 # ds'"
    by (cases "digits_of_nat n") (simp_all add: digits_ne)
  then have cons: "ds = d0 # ds'" using ds by simp
  have all: "\<forall>c \<in> set ds. is_digit c" using ds digits_all by simp
  then have d0: "is_digit d0" and all': "\<forall>c \<in> set ds'. is_digit c" using cons by auto
  have val: "nat_of_digits ds = n" using ds nat_of_digits_of_nat by simp
  show ?thesis
  proof (cases "d0 = CHR ''0''")
    case True
    have "n = 0"
    proof (rule ccontr)
      assume "n \<noteq> 0"
      then have "hd (digits_of_nat n) \<noteq> CHR ''0''" using digits_hd by simp
      then show False using dn True by simp
    qed
    then have "ds = ''0''" using ds digits_zero by simp
    then have ds': "ds' = []" using cons by simp
    show ?thesis
      using True ds' cons val rest d0 \<open>n = 0\<close>
      by (simp add: match_number_def Let_def no_frac no_exp nat_of_digits_def)
  next
    case False
    have tw: "takeWhile is_digit (ds' @ rest) = ds'" using all' rest by (rule takeWhile_digits)
    have dw: "dropWhile is_digit (ds' @ rest) = rest" using all' rest by (rule dropWhile_digits)
    show ?thesis
      using False cons val rest d0 tw dw
      by (simp add: match_number_def Let_def no_frac no_exp)
  qed
qed

lemma match_dumps_int:
  "ends_number rest \<Longrightarrow> match_number (dumps_int i @ rest) = Some (JInt i, rest)"
proof -
  assume rest: "ends_number rest"
  show ?thesis
  proof (cases "i < 0")
    case True
    then show ?thesis
      using match_neg_digits [OF refl rest, of "nat (- i)"] by (simp add: dumps_int_def)
  next
    case False
    then show ?thesis
      using match_digits [OF refl rest, of "nat i"] by (simp add: dumps_int_def)
  qed
qed

lemma dumps_int_hd:
  "\<exists>c t. dumps_int i = c # t \<and> (is_digit c \<or> c = CHR ''-'')"
proof (cases "i < 0")
  case True
  then show ?thesis by (simp add: dumps_int_def)
next
  case False
  obtain d0 ds' where "digits_of_nat (nat i) = d0 # ds'"
    by (cases "digits_of_nat (nat i)") (simp_all add: digits_ne)
  moreover have "is_digit d0" using digits_all [of "nat i"] calculation by simp
  ultimately show ?thesis using False by (simp add: dumps_int_def)
qed

lemma scansD:
  "scans j \<Longrightarrow> ends_value rest \<Longrightarrow> 2 * length (json_dumps j @ rest) + 1 \<le> fuel
   \<Longrightarrow> scan_once fuel (json_dumps j @ rest) = Some (j, rest)"
  by (simp add: scans_def)

lemma ends_value_number: "ends_value rest \<Longrightarrow> ends_number rest"
  by (auto simp: ends_value_def ends_number_def is_digit_def split: list.splits)

lemma skip_ws_first_ok: "first_ok s \<Longrightarrow> skip_ws s = s"
  by (cases s) (auto simp: first_ok_def skip_ws_def)

lemma skip_ws_space: "skip_ws (CHR '' '' # s) = skip_ws s"
  by (simp add: skip_ws_def is_ws_def)

lemma first_ok_append: "first_ok s \<Longrightarrow> first_ok (s @ t)"
  by (cases s) (auto simp: first_ok_def)

lemma first_ok_dumps: "wf_json j \<Longrightarrow> first_ok (json_dumps j)"
proof (cases j)
  case (JInt i)
  obtain c t where "dumps_int i = c # t" "is_digit c \<or> c = CHR ''-''"
    using dumps_int_hd by blast
  then show ?thesis using JInt by (auto simp: first_ok_def is_ws_def is_digit_def)
qed (auto simp: first_ok_def is_ws_def dumps_str_def)

lemma scan_atom:
  "scan_once (Suc n) (''null'' @ rest) = Some (JNull, rest)"
  "scan_once (Suc n) (''true'' @ rest) = Some (JBool True, rest)"
  "scan_once (Suc n) (''false'' @ rest) = Some (JBool False, rest)"
  by (simp_all add: starts_with_def)

lemma scan_str: "scan_once (Suc n) (dumps_str s @ rest) = Some (JStr s, rest)"
  by (simp add: dumps_str_def scanstring_dumps)

lemma scan_int:
  assumes "ends_number rest"
  shows "scan_once (Suc n) (dumps_int i @ rest) = Some (JInt i, rest)"
proof -
  obtain c t where ct: "dumps_int i = c # t" and c: "is_digit c \<or> c = CHR ''-''"
    using dumps_int_hd by blast
  have m: "match_number (c # t @ rest) = Some (JInt i, rest)"
    using match_dumps_int [OF assms, of i] ct by simp
  have "c \<noteq> CHR 0x22" "c \<noteq> CHR ''{''" "c \<noteq> CHR ''[''" "c \<noteq> CHR ''n''" "c \<noteq> CHR ''t''"
    "c \<noteq> CHR ''f''"
    using c by (auto simp: is_digit_def)
  then show ?thesis using m ct by (simp add: starts_with_def)
qed

lemma join_cons: "xs \<noteq> [] \<Longrightarrow> join sep (x # xs) = x @ sep @ join sep xs"
  by (cases xs) simp_all

lemma first_ok_join:
  "xs \<noteq> [] \<Longrightarrow> \<forall>x \<in> set xs. wf_json x \<Longrightarrow> first_ok (join sep (map json_dumps xs))"
proof (cases xs)
  case Nil
  then show "xs \<noteq> [] \<Longrightarrow> ?thesis" by simp
next
  case (Cons x xs')
  assume "\<forall>x \<in> set xs. wf_json x"
  then have "first_ok (json_dumps x)" using Cons first_ok_dumps by simp
  then show ?thesis using Cons by (cases xs') (simp_all add: first_ok_append)
qed

lemma array_elems:
  assumes "xs \<noteq> []" and "\<forall>x \<in> set xs. wf_json x \<and> scans x"
  shows "2 * length (join '', '' (map json_dumps xs) @ CHR '']'' # rest) + 2 \<le> fuel
         \<Longrightarrow> JSONArray fuel (join '', '' (map json_dumps xs) @ CHR '']'' # rest) = Some (xs, rest)"
  using assms
proof (induction xs arbitrary: fuel rule: list_nonempty_induct)
  case (single x)
  obtain n where fuel: "fuel = Suc n" using single.prems(1) by (cases fuel) auto
  have sx: "scans x" using single.prems(2) by simp
  have "scan_once n (json_dumps x @ CHR '']'' # rest) = Some (x, CHR '']'' # rest)"
    using single.prems(1) fuel by (intro scansD [OF sx]) (simp_all add: ends_value_def)
  then show ?case using fuel by (simp add: skip_ws_def is_ws_def)
next
  case (cons x xs)
  obtain n where fuel: "fuel = Suc n" using cons.prems(1) by (cases fuel) auto
  let ?tail = "join '', '' (map json_dumps xs) @ CHR '']'' # rest"
  have text_eq: "join '', '' (map json_dumps (x # xs)) @ CHR '']'' # rest
               = json_dumps x @ CHR '','' # CHR '' '' # ?tail"
    using cons.hyps by (simp add: join_cons)
  have sx: "scans x" using cons.prems(2) by simp
  have bound: "2 * length (json_dumps x @ CHR '','' # CHR '' '' # ?tail) + 2 \<le> fuel"
    using cons.prems(1) text_eq by simp
  have one: "scan_once n (json_dumps x @ CHR '','' # CHR '' '' # ?tail)
               = Some (x, CHR '','' # CHR '' '' # ?tail)"
    using bound fuel by (intro scansD [OF sx]) (simp_all add: ends_value_def)
  have fo: "first_ok ?tail"
    using cons.hyps cons.prems(2) by (intro first_ok_append first_ok_join) auto
  have rest_ok: "JSONArray n ?tail = Some (xs, rest)"
    using cons.prems(2) bound fuel by (intro cons.IH) auto
  show ?case
    unfolding text_eq fuel
    using one rest_ok fo
    by (simp add: skip_ws_def is_ws_def cons_result_def skip_ws_first_ok [unfolded skip_ws_def])
qed

lemma obj_text:
  "kvs \<noteq> [] \<Longrightarrow>
   join '', '' (map (\<lambda>kv. dumps_str (fst kv) @ '': '' @ json_dumps (snd kv)) kvs)
     = CHR 0x22 # obj_tail kvs"
proof (induction kvs rule: list_nonempty_induct)
  case (single kv)
  then show ?case by (simp add: member_text_def dumps_str_def)
next
  case (cons kv kvs)
  then show ?case by (cases kvs) (simp_all add: member_text_def dumps_str_def)
qed

lemma object_members:
  assumes "kvs \<noteq> []" and "\<forall>kv \<in> set kvs. wf_json (snd kv) \<and> scans (snd kv)"
  shows "2 * length (obj_tail kvs @ CHR ''}'' # rest) + 2 \<le> fuel
         \<Longrightarrow> JSONObject fuel (obj_tail kvs @ CHR ''}'' # rest) = Some (kvs, rest)"
  using assms
proof (induction kvs arbitrary: fuel rule: list_nonempty_induct)
  case (single kv)
  obtain n where fuel: "fuel = Suc n" using single.prems(1) by (cases fuel) auto
  obtain k v where kv: "kv = (k, v)" by (cases kv)
  have sv: "scans v" and wv: "wf_json v" using single.prems(2) kv by simp_all
  have fo: "first_ok (json_dumps v @ CHR ''}'' # rest)"
    using wv by (intro first_ok_append first_ok_dumps)
  have "scan_once n (json_dumps v @ CHR ''}'' # rest) = Some (v, CHR ''}'' # rest)"
    using single.prems(1) fuel kv
    by (intro scansD [OF sv]) (simp_all add: ends_value_def member_text_def)
  then show ?case
    using fuel kv fo
    by (simp add: member_text_def scanstring_dumps skip_ws_def is_ws_def
          skip_ws_first_ok [unfolded skip_ws_def])
next
  case (cons kv kvs)
  obtain n where fuel: "fuel = Suc n" using cons.prems(1) by (cases fuel) auto
  obtain k v where kv: "kv = (k, v)" by (cases kv)
  let ?tail = "obj_tail kvs @ CHR ''}'' # rest"
  let ?after = "CHR '','' # CHR '' '' # CHR 0x22 # ?tail"
  have text_eq: "obj_tail (kv # kvs) @ CHR ''}'' # rest = member_text kv @ ?after"
    using cons.hyps by (cases kvs) simp_all
  have sv: "scans v" and wv: "wf_json v" using cons.prems(2) kv by simp_all
  have bound: "2 * length (member_text kv @ ?after) + 2 \<le> fuel"
    using cons.prems(1) text_eq by simp
  have fo: "first_ok (json_dumps v @ ?after)"
    using wv by (intro first_ok_append first_ok_dumps)
  have one: "scan_once n (json_dumps v @ ?after) = Some (v, ?after)"
    using bound fuel kv
    by (intro scansD [OF sv]) (simp_all add: ends_value_def member_text_def)
  have rest_ok: "JSONObject n ?tail = Some (kvs, rest)"
    using cons.prems(2) bound fuel by (intro cons.IH) (auto simp: member_text_def)
  show ?case
    unfolding text_eq fuel
    using one rest_ok fo kv
    by (simp add: member_text_def scanstring_dumps skip_ws_def is_ws_def cons_result_def
          skip_ws_first_ok [unfolded skip_ws_def])
qed

lemma update_append: "k \<notin> fst ` set al \<Longrightarrow> AList.update k v al = al @ [(k, v)]"
  by (induction al) auto

lemma foldl_update_distinct:
  "distinct (map fst (acc @ kvs))
   \<Longrightarrow> foldl (\<lambda>d kv. AList.update (fst kv) (snd kv) d) acc kvs = acc @ kvs"
proof (induction kvs arbitrary: acc)
  case Nil
  then show ?case by simp
next
  case (Cons kv kvs)
  have "fst kv \<notin> fst ` set acc" using Cons.prems by auto
  then have "AList.update (fst kv) (snd kv) acc = acc @ [kv]"
    by (simp add: update_append)
  moreover have "distinct (map fst ((acc @ [kv]) @ kvs))" using Cons.prems by simp
  ultimately show ?case using Cons.IH [of "acc @ [kv]"] by simp
qed

lemma py_dict_distinct: "distinct (map fst kvs) \<Longrightarrow> py_dict kvs = kvs"
  using foldl_update_distinct [of "[]" kvs] by (simp add: py_dict_def)

lemma scans_wf: "wf_json j \<Longrightarrow> scans j"
proof (induction j)
  case JNull
  show ?case unfolding scans_def
  proof (intro allI impI)
    fix rest fuel
    assume "2 * length (json_dumps JNull @ rest) + 1 \<le> fuel"
    then obtain n where "fuel = Suc n" by (cases fuel) auto
    then show "scan_once fuel (json_dumps JNull @ rest) = Some (JNull, rest)"
      using scan_atom(1) by simp
  qed
next
  case (JBool b)
  show ?case unfolding scans_def
  proof (intro allI impI)
    fix rest fuel
    assume "2 * length (json_dumps (JBool b) @ rest) + 1 \<le> fuel"
    then obtain n where "fuel = Suc n" by (cases fuel) auto
    then show "scan_once fuel (json_dumps (JBool b) @ rest) = Some (JBool b, rest)"
      using scan_atom(2,3) by (cases b) simp_all
  qed
next
  case (JInt i)
  show ?case unfolding scans_def
  proof (intro allI impI)
    fix rest fuel
    assume e: "ends_value rest" and "2 * length (json_dumps (JInt i) @ rest) + 1 \<le> fuel"
    then obtain n where "fuel = Suc n" by (cases fuel) auto
    then show "scan_once fuel (json_dumps (JInt i) @ rest) = Some (JInt i, rest)"
      using scan_int [OF ends_value_number [OF e]] by simp
  qed
next
  case (JFloat lit)
  then show ?case by simp
next
  case (JStr s)
  show ?case unfolding scans_def
  proof (intro allI impI)
    fix rest fuel
    assume "2 * length (json_dumps (JStr s) @ rest) + 1 \<le> fuel"
    then obtain n where "fuel = Suc n" by (cases fuel) auto
    then show "scan_once fuel (json_dumps (JStr s) @ rest) = Some (JStr s, rest)"
      using scan_str by simp
  qed
next
  case (JArr xs)
  have elems: "\<forall>x \<in> set xs. wf_json x \<and> scans x"
    using JArr by auto
  show ?case unfolding scans_def
  proof (intro allI impI)
    fix rest fuel
    assume b: "2 * length (json_dumps (JArr xs) @ rest) + 1 \<le> fuel"
    then obtain n where fuel: "fuel = Suc n" by (cases fuel) auto
    show "scan_once fuel (json_dumps (JArr xs) @ rest) = Some (JArr xs, rest)"
    proof (cases "xs = []")
      case True
      then show ?thesis using fuel by (simp add: skip_ws_def is_ws_def)
    next
      case False
      let ?body = "join '', '' (map json_dumps xs) @ CHR '']'' # rest"
      have fo: "first_ok ?body"
        using False elems by (intro first_ok_append first_ok_join) auto
      then obtain c r where cr: "?body = c # r" "\<not> is_ws c" "c \<noteq> CHR '']''"
        by (cases ?body) (auto simp: first_ok_def)
      have "JSONArray n ?body = Some (xs, rest)"
        using b fuel by (intro array_elems [OF False elems]) simp
      then show ?thesis
        using fuel cr skip_ws_first_ok [OF fo] by simp
    qed
  qed
next
  case (JObj kvs)
  have members: "\<forall>kv \<in> set kvs. wf_json (snd kv) \<and> scans (snd kv)"
  proof
    fix kv assume m: "kv \<in> set kvs"
    then have w: "wf_json (snd kv)" using JObj.prems by simp
    then show "wf_json (snd kv) \<and> scans (snd kv)"
      using JObj.IH [OF m Basic_BNFs.snds.intros w] by simp
  qed
  have d: "distinct (map fst kvs)" using JObj.prems by simp
  show ?case unfolding scans_def
  proof (intro allI impI)
    fix rest fuel
    assume b: "2 * length (json_dumps (JObj kvs) @ rest) + 1 \<le> fuel"
    then obtain n where fuel: "fuel = Suc n" by (cases fuel) auto
    show "scan_once fuel (json_dumps (JObj kvs) @ rest) = Some (JObj kvs, rest)"
    proof (cases "kvs = []")
      case True
      then show ?thesis using fuel by (simp add: skip_ws_def is_ws_def)
    next
      case False
      have "JSONObject n (obj_tail kvs @ CHR ''}'' # rest) = Some (kvs, rest)"
        using b fuel obj_text [OF False] by (intro object_members [OF False members]) simp
      then show ?thesis
        using fuel obj_text [OF False] py_dict_distinct [OF d]
        by (simp add: skip_ws_def is_ws_def)
    qed
  qed
qed

lemma json_roundtrip: "wf_json j \<Longrightarrow> json_loads (json_dumps j) = Inr j"
proof -
  assume w: "wf_json j"
  have "scan_once (2 * length (json_dumps j) + 2) (json_dumps j @ []) = Some (j, [])"
    by (intro scansD [OF scans_wf [OF w]]) (simp_all add: ends_value_def)
  then show ?thesis
    using skip_ws_first_ok [OF first_ok_dumps [OF w]]
    by (simp add: json_loads_def skip_ws_def)
qed

lemma json_dumps_nonempty: "wf_json j \<Longrightarrow> json_dumps j \<noteq> []"
  using first_ok_dumps [of j] by (auto simp: first_ok_def)

subsection \<open>The cursor codec\<close>

lemma opt_str_param_dumped:
  "opt_str_param (case p of None \<Rightarrow> JNull | Some s \<Rightarrow> JStr s) = Inr p"
  by (simp add: opt_str_param_def split: option.splits)

lemma opt_int_param_dumped:
  "opt_int_param (case i of None \<Rightarrow> JNull | Some n \<Rightarrow> JInt n) = Inr i"
  by (simp add: opt_int_param_def int_of_json_def split: option.splits)

lemma dict_entries_dumped: "dict_entries (map (\<lambda>kv. (fst kv, JInt (snd kv))) d) = Inr d"
  by (induction d) (auto simp: int_of_json_def)

lemma new_component_dumped:
  "new_component
     (case latest_consumed_event_partition c of None \<Rightarrow> JNull | Some p \<Rightarrow> JStr p)
     (case latest_consumed_event_id c of None \<Rightarrow> JNull | Some i \<Rightarrow> JInt i)
     (JObj (map (\<lambda>kv. (fst kv, JInt (snd kv))) (trailing_unconsumed_partitioned_event_ids c)))
   = Inr c"
  by (simp add: new_component_def opt_str_param_dumped opt_int_param_dumped dict_param_def
        dict_entries_dumped)

lemma unpack_component:
  "unpack_cursor ((k, component_to_json c) # items) self =
     unpack_cursor items
       \<lparr> cursor_component_by_asset_key = AList.update k c (cursor_component_by_asset_key self),
         initial_latest_consumed_event_ids_by_asset_key =
           AList.update k (latest_consumed_event_id c)
             (initial_latest_consumed_event_ids_by_asset_key self) \<rparr>"
  by (simp add: component_to_json_def py_len_def py_iter_def new_component_dumped)

lemma unpack_components:
  "distinct (map fst (c0 @ m)) \<Longrightarrow> map fst i0 = map fst c0 \<Longrightarrow>
   unpack_cursor (map (\<lambda>kc. (fst kc, component_to_json (snd kc))) m @ items)
     \<lparr> cursor_component_by_asset_key = c0,
       initial_latest_consumed_event_ids_by_asset_key = i0 \<rparr>
   = unpack_cursor items
       \<lparr> cursor_component_by_asset_key = c0 @ m,
         initial_latest_consumed_event_ids_by_asset_key =
           i0 @ map (\<lambda>kc. (fst kc, latest_consumed_event_id (snd kc))) m \<rparr>"
proof (induction m arbitrary: c0 i0)
  case Nil
  then show ?case by simp
next
  case (Cons kc m)
  obtain k c where kc: "kc = (k, c)" by (cases kc)
  have fresh: "k \<notin> fst ` set c0" using Cons.prems(1) kc by auto
  then have fresh': "k \<notin> fst ` set i0" using Cons.prems(2) by (metis set_map)
  have d: "distinct (map fst ((c0 @ [(k, c)]) @ m))" using Cons.prems(1) kc by simp
  have e: "map fst (i0 @ [(k, latest_consumed_event_id c)]) = map fst (c0 @ [(k, c)])"
    using Cons.prems(2) by simp
  show ?case
    using Cons.IH [OF d e] kc
    by (simp add: unpack_component update_append [OF fresh] update_append [OF fresh']
          del: unpack_cursor.simps)
qed


lemma wf_component: 
  "distinct (map fst (trailing_unconsumed_partitioned_event_ids c))
   \<Longrightarrow> wf_json (component_to_json c)"
  by (auto simp: component_to_json_def comp_def split: option.splits)

lemma wf_cursor:
  "distinct (map fst m)
   \<Longrightarrow> \<forall>kc \<in> set m. distinct (map fst (trailing_unconsumed_partitioned_event_ids (snd kc)))
   \<Longrightarrow> wf_json (cursor_to_json m)"
  by (auto simp: cursor_to_json_def comp_def wf_component)

text \<open>
  Claim C6. For a cursor map whose keys are distinct, as are the partitions of each trailing
  map (the keys of Python dicts are), decoding the string that
  \<^verbatim>\<open>get_stringified_cursor\<close> produces gives back the same components, in the same
  order, together with their consumed ids.
\<close>

theorem cursor_roundtrip:
  assumes keys: "distinct (map fst (cursor_component_by_asset_key self))"
    and parts: "\<forall>kc \<in> set (cursor_component_by_asset_key self).
                  distinct (map fst (trailing_unconsumed_partitioned_event_ids (snd kc)))"
  shows "MultiAssetSensorContextCursor_init (Some (get_stringified_cursor self))
         = Inr \<lparr> cursor_component_by_asset_key = cursor_component_by_asset_key self,
                 initial_latest_consumed_event_ids_by_asset_key =
                   map (\<lambda>kc. (fst kc, latest_consumed_event_id (snd kc)))
                     (cursor_component_by_asset_key self) \<rparr>"
proof -
  let ?m = "cursor_component_by_asset_key self"
  have w: "wf_json (cursor_to_json ?m)" using keys parts by (rule wf_cursor)
  have l: "json_loads (json_dumps (cursor_to_json ?m)) = Inr (cursor_to_json ?m)"
    using w by (rule json_roundtrip)
  have ne: "json_dumps (cursor_to_json ?m) \<noteq> []"
    using w by (rule json_dumps_nonempty)
  have u: "unpack_cursor (map (\<lambda>kc. (fst kc, component_to_json (snd kc))) ?m @ []) empty_cursor
           = Inr \<lparr> cursor_component_by_asset_key = [] @ ?m,
                   initial_latest_consumed_event_ids_by_asset_key =
                     [] @ map (\<lambda>kc. (fst kc, latest_consumed_event_id (snd kc))) ?m \<rparr>"
    unfolding empty_cursor_def
    using keys by (subst unpack_components) simp_all
  show ?thesis
    using l ne u
    by (simp add: MultiAssetSensorContextCursor_init_def get_stringified_cursor_def
          cursor_to_json_def)
qed

theorem cursor_roundtrip_witness:
  "distinct (map fst (cursor_component_by_asset_key (unpacked_cursor backlog_context)))
   \<and> MultiAssetSensorContextCursor_init
       (Some (get_stringified_cursor (unpacked_cursor backlog_context)))
     = Inr (unpacked_cursor backlog_context)"
proof -
  have h1: "distinct (map fst (cursor_component_by_asset_key (unpacked_cursor backlog_context)))"
    by code_simp
  have h2: "\<forall>kc \<in> set (cursor_component_by_asset_key (unpacked_cursor backlog_context)).
              distinct (map fst (trailing_unconsumed_partitioned_event_ids (snd kc)))"
    by code_simp
  have h3: "\<lparr> cursor_component_by_asset_key =
               cursor_component_by_asset_key (unpacked_cursor backlog_context),
             initial_latest_consumed_event_ids_by_asset_key =
               map (\<lambda>kc. (fst kc, latest_consumed_event_id (snd kc)))
                 (cursor_component_by_asset_key (unpacked_cursor backlog_context)) \<rparr>
            = unpacked_cursor backlog_context"
    by code_simp
  show ?thesis
    using h1 cursor_roundtrip [OF h1 h2] h3 by simp
qed




end
